theory Spec2Isabelle
  imports Main "HOL-Library.AList"
begin

section \<open>Data model of the object store (objstore.go)\<close>

text \<open>
  Byte streams (\<open>io.Reader\<close>, file bodies) are byte strings. Go maps and the journals are
  association lists: \<open>map_of\<close> reads a key, \<open>AList.update\<close> stores one (in place when the
  key is present, at the end otherwise), \<open>AList.delete\<close> removes it.
\<close>

type_synonym bytes = string

text \<open>
  Go errors. \<open>ErrNotFound\<close> and \<open>ForEachStop\<close> are the sentinels the code compares by
  identity; \<open>New\<close> is \<open>errors.New\<close>; \<open>Errorf\<close> is \<open>fmt.Errorf\<close> with its format string
  and arguments kept apart (the rendering of \<open>%v\<close> is not modelled).
\<close>

datatype error = ErrNotFound | ForEachStop | New string | Errorf string "fmtarg list"
and fmtarg = ArgError error | ArgInt int | ArgString string

text \<open>
  Modelled from the spec: the consistency levels LOCAL, REMOTE (S3) and FULL, numbered in
  that order. \<open>journal.ConsistencyLevel\<close> is an integer type; its three named constants
  are declared in the journal package, which is not part of the sources at hand.
\<close>

type_synonym ConsistencyLevel = int

definition ConsistencyLocal :: ConsistencyLevel where "ConsistencyLocal = 0"
definition ConsistencyS3 :: ConsistencyLevel where "ConsistencyS3 = 1"
definition ConsistencyFull :: ConsistencyLevel where "ConsistencyFull = 2"

text \<open>
  Modelled from the spec: the record describing one object, with its id, name, size,
  write timestamp, consistency level, symlink flag and tombstone flag.
  \<open>journal.FileMeta\<close> is declared in the journal package, which is not part of the
  sources at hand.
\<close>

record FileMeta =
  ID :: string
  Name :: string
  Size :: int
  Timestamp :: int
  Consistency :: ConsistencyLevel
  IsSymlink :: bool
  IsDeleted :: bool

type_synonym FileMetaList = "FileMeta list"

datatype storeState = storeInactiveState | storeSyncState | storeActiveState

text \<open>
  Modelled from the spec: the event types FileAdded, FileDeleted, OpaqueData and
  StopAnnounce; an announce carries a type, a file meta (for file events) and opaque
  bytes; a node descriptor carries the node's id. \<open>cluster.EventType\<close>,
  \<open>cluster.EventAnnounce\<close> and \<open>cluster.NodeInfo\<close> are declared in the cluster package,
  which is not part of the sources at hand.
\<close>

datatype EventType = EventFileAdded | EventFileDeleted | EventOpaqueData | EventStopAnnounce

record EventAnnounce =
  Type :: EventType
  FileMeta :: "FileMeta option"
  OpaqueData :: bytes

datatype NodeInfo = NodeInfo (node_ID: string)

text \<open>
  Modelled from the spec: a journal is an ordered mapping from id to \<open>FileMeta\<close>; the
  journal manager holds the journals keyed by the id of the owning node, in iteration
  order. The journal package is not part of the sources at hand.
\<close>

type_synonym Journal = "(string \<times> FileMeta) list"
type_synonym Journals = "(string \<times> Journal) list"
type_synonym Disk = "(string \<times> bytes) list"

text \<open>
  The store. The pumps are the queues of events submitted and not yet taken by a worker
  (FIFO); the wait groups, the mutex and the debug flag carry no data the model needs.
\<close>

record objStore =
  nodeID :: string
  state :: storeState
  localStorage :: Disk
  remoteStorage :: Disk
  journals :: Journals
  outboundPump :: "EventAnnounce list"
  inboundPump :: "EventAnnounce list"

section \<open>The collaborators behind the interfaces\<close>

text \<open>
  The store reaches its local storage, remote storage, journal manager and cluster
  manager through Go interfaces; their implementations are not part of the sources at
  hand. What the outside decides in one call is a field of \<open>Env\<close>: whether a storage or
  journal operation fails (and with which error), which nodes the cluster lists, and
  what a peer answers to a sync request. What the Go runtime decides in a sync round is
  a field as well: \<open>Schedule\<close> is the order in which the goroutines of the peers take
  their steps, \<open>RangeAdded\<close> and \<open>RangeDeleted\<close> are the orders in which the \<open>range\<close>
  statements over the maps \<open>setAdded\<close> and \<open>setDeleted\<close> visit the ids.
\<close>

record Env =
  WriteFault :: "string \<Rightarrow> (int \<times> error) option"
  ReadFault :: "string \<Rightarrow> error option"
  UploadFault :: "string \<Rightarrow> error option"
  ForEachFault :: "error option"
  ForEachUpdateFault :: "error option"
  UpdateFault :: "error option"
  ExportAllFault :: "error option"
  SetFault :: "string \<Rightarrow> string \<Rightarrow> error option"
  DeleteFault :: "string \<Rightarrow> string \<Rightarrow> error option"
  ListNodes :: "error + NodeInfo list"
  Sync :: "string \<Rightarrow> FileMetaList \<Rightarrow> error + (FileMetaList \<times> FileMetaList)"
  Schedule :: "string list"
  RangeAdded :: "string list"
  RangeDeleted :: "string list"

subsection \<open>Local and remote storage\<close>

text \<open>
  Modelled from the spec: \<open>LocalStorage\<close> offers \<open>Read(id)\<close>, \<open>Write(id, stream)\<close>
  returning the bytes written, and \<open>Remove(id)\<close>. A write that does not fail stores the
  whole stream under the id and returns its length; a failing write reports the count
  and the error the environment gives and leaves the disk as it was. A read fails when
  the environment says so or when no file is stored under the id.
\<close>

definition localStorage_Write :: "Env \<Rightarrow> Disk \<Rightarrow> string \<Rightarrow> bytes \<Rightarrow> (int \<times> error option) \<times> Disk" where
  "localStorage_Write env disk key r =
     (case WriteFault env key of
        Some (n, e) \<Rightarrow> ((n, Some e), disk)
      | None \<Rightarrow> ((int (length r), None), AList.update key r disk))"

definition localStorage_Read :: "Env \<Rightarrow> Disk \<Rightarrow> string \<Rightarrow> error + bytes" where
  "localStorage_Read env disk key =
     (case ReadFault env key of
        Some e \<Rightarrow> Inl e
      | None \<Rightarrow>
         (case map_of disk key of
            None \<Rightarrow> Inl (New ''file does not exist'')
          | Some b \<Rightarrow> Inr b))"

definition localStorage_Remove :: "Disk \<Rightarrow> string \<Rightarrow> Disk" where
  "localStorage_Remove disk key = AList.delete key disk"

text \<open>
  Modelled from the spec: the remote blob service stores the uploaded bytes under the
  key, unless the upload fails.
\<close>

definition remoteStorage_UploadObject :: "Env \<Rightarrow> Disk \<Rightarrow> string \<Rightarrow> bytes \<Rightarrow> error option \<times> Disk" where
  "remoteStorage_UploadObject env remote key r =
     (case UploadFault env key of
        Some e \<Rightarrow> (Some e, remote)
      | None \<Rightarrow> (None, AList.update key r remote))"

subsection \<open>Journals and the journal manager\<close>

text \<open>
  Modelled from the spec: a journal's \<open>Get\<close>, \<open>Set\<close> and \<open>Delete\<close> read, store and remove
  the record of an id; \<open>Set\<close> and \<open>Delete\<close> return an error when they fail, and then
  change nothing. The first argument of \<open>Journal_Set\<close> and \<open>Journal_Delete\<close> is the id of
  the journal (\<open>j.ID()\<close>).
\<close>

definition Journal_Get :: "Journal \<Rightarrow> string \<Rightarrow> FileMeta option" where
  "Journal_Get j key = map_of j key"

definition Journal_Set :: "Env \<Rightarrow> string \<Rightarrow> Journal \<Rightarrow> string \<Rightarrow> FileMeta \<Rightarrow> error option \<times> Journal" where
  "Journal_Set env jid j key meta =
     (case SetFault env jid key of
        Some e \<Rightarrow> (Some e, j)
      | None \<Rightarrow> (None, AList.update key meta j))"

definition Journal_Delete :: "Env \<Rightarrow> string \<Rightarrow> Journal \<Rightarrow> string \<Rightarrow> error option \<times> Journal" where
  "Journal_Delete env jid j key =
     (case DeleteFault env jid key of
        Some e \<Rightarrow> (Some e, j)
      | None \<Rightarrow> (None, AList.delete key j))"

text \<open>
  Modelled from the spec: \<open>ForEach(visitor)\<close> scans the journals in iteration order; the
  visitor returns nil to go on, \<open>ForEachStop\<close> to end the scan without an error, and any
  other error to abort the scan with that error. The last argument threads the variables
  the Go closure captures.
\<close>

fun forEachLoop ::
  "(string \<times> Journal \<Rightarrow> 'a \<Rightarrow> error option \<times> 'a) \<Rightarrow> Journals \<Rightarrow> 'a \<Rightarrow> error option \<times> 'a" where
  "forEachLoop fn [] acc = (None, acc)"
| "forEachLoop fn (j # js) acc =
     (case fn j acc of
        (None, acc') \<Rightarrow> forEachLoop fn js acc'
      | (Some e, acc') \<Rightarrow> if e = ForEachStop then (None, acc') else (Some e, acc'))"

definition ForEach ::
  "Env \<Rightarrow> Journals \<Rightarrow> (string \<times> Journal \<Rightarrow> 'a \<Rightarrow> error option \<times> 'a) \<Rightarrow> 'a \<Rightarrow> error option \<times> 'a" where
  "ForEach env js fn acc =
     (case ForEachFault env of
        Some e \<Rightarrow> (Some e, acc)
      | None \<Rightarrow> forEachLoop fn js acc)"

text \<open>
  Modelled from the spec: \<open>ForEachUpdate(mutator)\<close> applies the mutator to every journal
  in iteration order within one mutation; when the mutator or the mutation itself fails,
  the error is returned and the journals stay as they were.
\<close>

fun forEachUpdateLoop ::
  "(string \<times> Journal \<Rightarrow> 'a \<Rightarrow> error option \<times> Journal \<times> 'a) \<Rightarrow> Journals \<Rightarrow> 'a
     \<Rightarrow> error option \<times> Journals \<times> 'a" where
  "forEachUpdateLoop fn [] acc = (None, [], acc)"
| "forEachUpdateLoop fn ((jid, j) # js) acc =
     (case fn (jid, j) acc of
        (None, j', acc') \<Rightarrow>
          (case forEachUpdateLoop fn js acc' of
             (r, js', acc'') \<Rightarrow> (r, (jid, j') # js', acc''))
      | (Some e, j', acc') \<Rightarrow> (Some e, (jid, j) # js, acc'))"

definition ForEachUpdate ::
  "Env \<Rightarrow> Journals \<Rightarrow> (string \<times> Journal \<Rightarrow> 'a \<Rightarrow> error option \<times> Journal \<times> 'a) \<Rightarrow> 'a
     \<Rightarrow> error option \<times> Journals \<times> 'a" where
  "ForEachUpdate env js fn acc =
     (case ForEachUpdateFault env of
        Some e \<Rightarrow> (Some e, js, acc)
      | None \<Rightarrow>
         (case forEachUpdateLoop fn js acc of
            (None, js', acc') \<Rightarrow> (None, js', acc')
          | (Some e, js', acc') \<Rightarrow> (Some e, js, acc')))"

text \<open>
  Modelled from the spec: \<open>Update(ownerID, mutator)\<close> applies the mutator to the journal
  of that owner in one mutation, and fails when there is no such journal, when the
  mutation itself fails, or when the mutator returns an error.
\<close>

definition Update ::
  "Env \<Rightarrow> Journals \<Rightarrow> string \<Rightarrow> (string \<times> Journal \<Rightarrow> 'a \<Rightarrow> error option \<times> Journal \<times> 'a) \<Rightarrow> 'a
     \<Rightarrow> error option \<times> Journals \<times> 'a" where
  "Update env js jid fn acc =
     (case UpdateFault env of
        Some e \<Rightarrow> (Some e, js, acc)
      | None \<Rightarrow>
         (case map_of js jid of
            None \<Rightarrow> (Some (New ''journal not found''), js, acc)
          | Some j \<Rightarrow>
             (case fn (jid, j) acc of
                (None, j', acc') \<Rightarrow> (None, AList.update jid j' js, acc')
              | (Some e, j', acc') \<Rightarrow> (Some e, js, acc'))))"

text \<open>
  Modelled from the spec: \<open>ExportAll()\<close> is the union of all known journals as a flat
  list.
\<close>

definition ExportAll :: "Env \<Rightarrow> Journals \<Rightarrow> error + FileMetaList" where
  "ExportAll env js =
     (case ExportAllFault env of
        Some e \<Rightarrow> Inl e
      | None \<Rightarrow> Inr (concat (map (\<lambda>(jid, j). map snd j) js)))"

section \<open>Announce entry points (objstore.go, lines 402-416)\<close>

text \<open>
  A send on a pump appends the event to the pump's queue. The pump itself
  (\<open>pumpEventAnnounces\<close>) and the workers are not modelled.
\<close>

definition ReceiveEventAnnounce :: "objStore \<Rightarrow> EventAnnounce \<Rightarrow> objStore" where
  "ReceiveEventAnnounce st event =
     (if Type event = EventStopAnnounce then st
      else st\<lparr>inboundPump := inboundPump st @ [event]\<rparr>)"

definition EmitEventAnnounce :: "objStore \<Rightarrow> EventAnnounce \<Rightarrow> objStore" where
  "EmitEventAnnounce st event =
     (if Type event = EventStopAnnounce then st
      else st\<lparr>outboundPump := outboundPump st @ [event]\<rparr>)"

section \<open>Consistency levels (objstore.go, lines 58-66)\<close>

definition Check :: "ConsistencyLevel \<Rightarrow> ConsistencyLevel \<times> error option" where
  "Check c =
     (let level = c in
      if level = ConsistencyLocal \<or> level = ConsistencyS3 \<or> level = ConsistencyFull
      then (level, None)
      else (0, Some (New ''objstore: invalid consistency level'')))"

section \<open>Read path (objstore.go, lines 483-521)\<close>

text \<open>
  The visitor of \<open>HeadObject\<close> and \<open>GetObject\<close>: the captured variable \<open>meta\<close> is the
  threaded value; a journal without the id lets the scan go on, a journal with it sets
  \<open>meta\<close> and stops the scan.
\<close>

definition findMeta :: "string \<Rightarrow> string \<times> Journal \<Rightarrow> FileMeta option \<Rightarrow> error option \<times> FileMeta option" where
  "findMeta key jj meta =
     (case Journal_Get (snd jj) key of
        None \<Rightarrow> (None, meta)
      | Some m \<Rightarrow> (Some ForEachStop, Some m))"

definition HeadObject :: "Env \<Rightarrow> objStore \<Rightarrow> string \<Rightarrow> FileMeta option \<times> error option" where
  "HeadObject env st key =
     (case ForEach env (journals st) (findMeta key) None of
        (err, meta) \<Rightarrow> (meta, err))"

text \<open>The result of \<open>GetObject\<close> is the triple (stream, meta, error) of the Go function.\<close>

definition GetObject :: "Env \<Rightarrow> objStore \<Rightarrow> string \<Rightarrow> bytes option \<times> FileMeta option \<times> error option" where
  "GetObject env st key =
     (case ForEach env (journals st) (findMeta key) None of
        (Some err, meta) \<Rightarrow> (None, None, Some err)
      | (None, None) \<Rightarrow> (None, None, Some ErrNotFound)
      | (None, Some meta) \<Rightarrow>
          if IsSymlink meta then (None, Some meta, Some ErrNotFound)
          else
            (case localStorage_Read env (localStorage st) key of
               Inl err \<Rightarrow> (None, Some meta, Some ErrNotFound)
             | Inr f \<Rightarrow> (Some f, Some meta, None)))"

section \<open>Write path (objstore.go, lines 580-649)\<close>

text \<open>
  The mutator of \<open>storeLocal\<close>; the captured variable \<open>journalOk\<close> is the threaded value.
\<close>

definition storeLocalMutator ::
  "Env \<Rightarrow> string \<Rightarrow> FileMeta \<Rightarrow> string \<times> Journal \<Rightarrow> bool \<Rightarrow> error option \<times> Journal \<times> bool" where
  "storeLocalMutator env journalID meta jj journalOk =
     (case jj of (jid, j) \<Rightarrow>
        if journalID = jid
        then (case Journal_Set env jid j (ID meta) meta of (e, j') \<Rightarrow> (e, j', True))
        else (case Journal_Delete env jid j (ID meta) of (e, j') \<Rightarrow> (e, j', journalOk)))"

definition storeLocal :: "Env \<Rightarrow> objStore \<Rightarrow> bytes \<Rightarrow> FileMeta \<Rightarrow> (int \<times> error option) \<times> objStore" where
  "storeLocal env st r meta =
     (case localStorage_Write env (localStorage st) (ID meta) r of
        ((written, Some err), disk) \<Rightarrow> ((written, Some err), st\<lparr>localStorage := disk\<rparr>)
      | ((written, None), disk) \<Rightarrow>
          (let st1 = st\<lparr>localStorage := disk\<rparr>;
               journalID = nodeID st1
           in case ForEachUpdate env (journals st1) (storeLocalMutator env journalID meta) False of
                (Some err, js, journalOk) \<Rightarrow> ((written, Some err), st1\<lparr>journals := js\<rparr>)
              | (None, js, journalOk) \<Rightarrow>
                  if \<not> journalOk
                  then ((written, Some (Errorf ''objstore: journal not found: %v'' [ArgString journalID])),
                        st1\<lparr>journals := js\<rparr>)
                  else ((written, None), st1\<lparr>journals := js\<rparr>)))"

definition storeS3 :: "Env \<Rightarrow> objStore \<Rightarrow> bytes \<Rightarrow> FileMeta \<Rightarrow> error option \<times> objStore" where
  "storeS3 env st r meta =
     (case remoteStorage_UploadObject env (remoteStorage st) (ID meta) r of
        (err, remote) \<Rightarrow> (err, st\<lparr>remoteStorage := remote\<rparr>))"

text \<open>
  The result of \<open>PutObject\<close> is the pair (int64, error) of the Go function, with the store
  after the call. In the \<open>ConsistencyLocal\<close> case no \<open>return\<close> follows the announce, so
  control leaves the \<open>switch\<close> and reaches the function's last statement,
  \<open>return 0, nil\<close>.
\<close>

definition PutObject :: "Env \<Rightarrow> objStore \<Rightarrow> bytes \<Rightarrow> FileMeta \<Rightarrow> (int \<times> error option) \<times> objStore" where
  "PutObject env st r meta =
     (if Consistency meta = ConsistencyLocal then
        (case storeLocal env st r meta of
           ((written, Some err), st1) \<Rightarrow>
             ((written, Some (Errorf ''objstore: local store failed: %v'' [ArgError err])), st1)
         | ((written, None), st1) \<Rightarrow>
             ((0, None),
              EmitEventAnnounce st1 \<lparr>Type = EventFileAdded, FileMeta = Some meta, OpaqueData = []\<rparr>))
      else if Consistency meta = ConsistencyS3 \<or> Consistency meta = ConsistencyFull then
        (case storeLocal env st r meta of
           ((written, Some err), st1) \<Rightarrow>
             ((written, Some (Errorf ''objstore: local store failed: %v'' [ArgError err])), st1)
         | ((written, None), st1) \<Rightarrow>
             (let st2 = EmitEventAnnounce st1 \<lparr>Type = EventFileAdded, FileMeta = Some meta, OpaqueData = []\<rparr>
              in case localStorage_Read env (localStorage st2) (ID meta) of
                   Inl err \<Rightarrow>
                     ((written, Some (Errorf ''objstore: local store missing file: %v'' [ArgError err])), st2)
                 | Inr f \<Rightarrow>
                     (case storeS3 env st2 f meta of
                        (Some err, st3) \<Rightarrow>
                          ((written, Some (Errorf ''objstore: remote store failed: %v'' [ArgError err])), st3)
                      | (None, st3) \<Rightarrow> ((written, None), st3))))
      else ((0, Some (Errorf ''objstore: unknown consistency %v'' [ArgInt (Consistency meta)])), st))"

section \<open>Sync engine: the merge step (objstore.go, sync, lines 241-269)\<close>

text \<open>
  \<open>setAdded\<close> and \<open>setDeleted\<close> are Go maps from id to \<open>*FileMeta\<close>.

  The first loop: for each \<open>meta\<close> of \<open>listAdded\<close>, when the map already has a record
  \<open>m\<close> for \<open>meta.ID\<close> and \<open>meta.Timestamp > m.Timestamp\<close>, the record is stored and the loop
  continues; in every other case control reaches the statement after the \<open>if\<close>, which stores
  the record as well.
\<close>

type_synonym MetaSet = "(string \<times> FileMeta) list"

definition addedStep :: "MetaSet \<Rightarrow> FileMeta \<Rightarrow> MetaSet" where
  "addedStep setAdded meta =
     (case map_of setAdded (ID meta) of
        Some m \<Rightarrow>
          if Timestamp meta > Timestamp m
          then AList.update (ID meta) meta setAdded
          else AList.update (ID meta) meta setAdded
      | None \<Rightarrow> AList.update (ID meta) meta setAdded)"

definition mergeAdded :: "FileMetaList \<Rightarrow> MetaSet" where
  "mergeAdded listAdded = foldl addedStep [] listAdded"

text \<open>
  The second loop: for each \<open>meta\<close> of \<open>listDeleted\<close>, when \<open>setAdded\<close> holds a record
  \<open>mAdd\<close> for the id, either the add is newer and this delete is skipped, or the id is
  deleted from \<open>setAdded\<close>; a delete that is not skipped is then stored in \<open>setDeleted\<close> by
  the same pattern as in the first loop.
\<close>

definition storeDeleted :: "MetaSet \<Rightarrow> FileMeta \<Rightarrow> MetaSet" where
  "storeDeleted setDeleted meta =
     (case map_of setDeleted (ID meta) of
        Some m \<Rightarrow>
          if Timestamp meta > Timestamp m
          then AList.update (ID meta) meta setDeleted
          else AList.update (ID meta) meta setDeleted
      | None \<Rightarrow> AList.update (ID meta) meta setDeleted)"

definition deletedStep :: "MetaSet \<times> MetaSet \<Rightarrow> FileMeta \<Rightarrow> MetaSet \<times> MetaSet" where
  "deletedStep sets meta =
     (case sets of (setAdded, setDeleted) \<Rightarrow>
        (case map_of setAdded (ID meta) of
           Some mAdd \<Rightarrow>
             if Timestamp mAdd > Timestamp meta
             then (setAdded, setDeleted)
             else (AList.delete (ID meta) setAdded, storeDeleted setDeleted meta)
         | None \<Rightarrow> (setAdded, storeDeleted setDeleted meta)))"

definition mergeDeleted :: "MetaSet \<Rightarrow> FileMetaList \<Rightarrow> MetaSet \<times> MetaSet" where
  "mergeDeleted setAdded listDeleted = foldl deletedStep (setAdded, []) listDeleted"

section \<open>Sync engine: one round (objstore.go, sync, lines 197-331)\<close>

text \<open>
  \<open>closer.Fatalln\<close> ends the process: a round either is fatal or returns its boolean
  with the store after the round.
\<close>

datatype 'a outcome = Fatal string error | Returned 'a

text \<open>
  Lines 222-239: for every node other than this one a goroutine asks the peer to sync
  and, unless the peer fails, runs \<open>listAdded = append(listAdded, added...)\<close> and then
  \<open>listDeleted = append(listDeleted, deleted...)\<close>. The two slices are shared by the
  goroutines and no lock guards them, so each append is a load of the slice followed by
  a store of the loaded value extended by the answer, and the steps of different
  goroutines interleave. A goroutine is the id of its peer, the peer's answer and the
  step it is about to take; a \<open>Store\<close> step carries the value loaded before it. (The
  sharing of backing arrays between slice values is not modelled.)
\<close>

datatype peerStep =
  LoadAdded | StoreAdded FileMetaList | LoadDeleted | StoreDeleted FileMetaList | PeerDone

type_synonym peerRoutine = "string \<times> (FileMetaList \<times> FileMetaList) \<times> peerStep"

fun spawnPeers :: "Env \<Rightarrow> string \<Rightarrow> FileMetaList \<Rightarrow> NodeInfo list \<Rightarrow> peerRoutine list" where
  "spawnPeers env self list [] = []"
| "spawnPeers env self list (node # nodes) =
     (if node_ID node = self then spawnPeers env self list nodes
      else
        (case Sync env (node_ID node) list of
           Inl err \<Rightarrow> spawnPeers env self list nodes
         | Inr answer \<Rightarrow> (node_ID node, answer, LoadAdded) # spawnPeers env self list nodes))"

definition stepPeer ::
  "FileMetaList \<times> FileMetaList \<Rightarrow> peerRoutine
     \<Rightarrow> (FileMetaList \<times> FileMetaList) \<times> peerRoutine" where
  "stepPeer shared g =
     (case shared of (listAdded, listDeleted) \<Rightarrow>
      (case g of (peer, (added, deleted), pc) \<Rightarrow>
        (case pc of
           LoadAdded \<Rightarrow> ((listAdded, listDeleted), (peer, (added, deleted), StoreAdded listAdded))
         | StoreAdded loaded \<Rightarrow> ((loaded @ added, listDeleted), (peer, (added, deleted), LoadDeleted))
         | LoadDeleted \<Rightarrow> ((listAdded, listDeleted), (peer, (added, deleted), StoreDeleted listDeleted))
         | StoreDeleted loaded \<Rightarrow> ((listAdded, loaded @ deleted), (peer, (added, deleted), PeerDone))
         | PeerDone \<Rightarrow> ((listAdded, listDeleted), (peer, (added, deleted), PeerDone)))))"

text \<open>
  One entry of the schedule: the first goroutine of that peer that has not finished
  takes one step (an entry that names no such goroutine does nothing).
\<close>

fun stepNamed ::
  "string \<Rightarrow> FileMetaList \<times> FileMetaList \<Rightarrow> peerRoutine list
     \<Rightarrow> (FileMetaList \<times> FileMetaList) \<times> peerRoutine list" where
  "stepNamed p shared [] = (shared, [])"
| "stepNamed p shared (g # gs) =
     (if fst g = p \<and> snd (snd g) \<noteq> PeerDone
      then (case stepPeer shared g of (shared', g') \<Rightarrow> (shared', g' # gs))
      else (case stepNamed p shared gs of (shared', gs') \<Rightarrow> (shared', g # gs')))"

text \<open>The steps a goroutine still has to take, taken without interruption.\<close>

definition finishPeer :: "FileMetaList \<times> FileMetaList \<Rightarrow> peerRoutine \<Rightarrow> FileMetaList \<times> FileMetaList" where
  "finishPeer shared g =
     (case shared of (listAdded, listDeleted) \<Rightarrow>
      (case g of (peer, (added, deleted), pc) \<Rightarrow>
        (case pc of
           LoadAdded \<Rightarrow> (listAdded @ added, listDeleted @ deleted)
         | StoreAdded loaded \<Rightarrow> (loaded @ added, listDeleted @ deleted)
         | LoadDeleted \<Rightarrow> (listAdded, listDeleted @ deleted)
         | StoreDeleted loaded \<Rightarrow> (listAdded, loaded @ deleted)
         | PeerDone \<Rightarrow> (listAdded, listDeleted))))"

text \<open>
  The goroutines take the steps of the schedule; \<open>wg.Wait()\<close> returns when all of them
  are done, so the goroutines that the schedule leaves unfinished then finish one after
  another, in the order of the node list. With the empty schedule the answers are
  appended in the order of the node list.
\<close>

definition syncPeers ::
  "Env \<Rightarrow> string \<Rightarrow> FileMetaList \<Rightarrow> NodeInfo list \<Rightarrow> FileMetaList \<times> FileMetaList" where
  "syncPeers env self list nodes =
     (case foldl (\<lambda>sg p. stepNamed p (fst sg) (snd sg))
             (([], []), spawnPeers env self list nodes) (Schedule env) of
        (shared, gs) \<Rightarrow> foldl finishPeer shared gs)"

text \<open>
  A \<open>range\<close> loop over a Go map visits every entry once, in an order the language leaves
  open. The ids named by \<open>order\<close> are visited first, in that order, and the remaining
  entries after them, so that every order of the entries is the result of some \<open>order\<close>.
\<close>

definition rangeMap :: "string list \<Rightarrow> MetaSet \<Rightarrow> FileMeta list" where
  "rangeMap order m =
     List.map_filter (map_of m) (remdups order) @
     map snd (filter (\<lambda>entry. fst entry \<notin> set order) m)"

text \<open>
  Lines 273-300, the body of the loop over \<open>setAdded\<close> inside the journal update. The
  errors of \<open>Remove\<close> and \<open>Set\<close> are dropped or logged. The code sets \<open>IsSymlink\<close> through
  the pointer, so the record stored and the record announced both carry the flag.
\<close>

definition applyAdded :: "Env \<Rightarrow> string \<Rightarrow> Journal \<times> objStore \<Rightarrow> FileMeta \<Rightarrow> Journal \<times> objStore" where
  "applyAdded env jid jst meta =
     (case jst of (j, st) \<Rightarrow>
        if IsDeleted meta then
          (snd (Journal_Set env jid j (ID meta) meta),
           st\<lparr>localStorage := localStorage_Remove (localStorage st) (ID meta)\<rparr>)
        else if Consistency meta = ConsistencyLocal \<or> Consistency meta = ConsistencyS3 then
          (let meta' = meta\<lparr>IsSymlink := True\<rparr>
           in (snd (Journal_Set env jid j (ID meta') meta'), st))
        else if Consistency meta = ConsistencyFull then
          (let meta' = meta\<lparr>IsSymlink := True\<rparr>;
               st' = ReceiveEventAnnounce st \<lparr>Type = EventFileAdded, FileMeta = Some meta', OpaqueData = []\<rparr>
           in (snd (Journal_Set env jid j (ID meta') meta'), st'))
        else (j, st))"

definition syncMutator ::
  "Env \<Rightarrow> MetaSet \<Rightarrow> string \<times> Journal \<Rightarrow> objStore \<Rightarrow> error option \<times> Journal \<times> objStore" where
  "syncMutator env setAdded jj st =
     (case jj of (jid, j) \<Rightarrow>
        (case foldl (applyAdded env jid) (j, st) (rangeMap (RangeAdded env) setAdded) of
           (j', st') \<Rightarrow> (None, j', st')))"

text \<open>Lines 314-328, the body of the loop over \<open>setDeleted\<close>.\<close>

definition emitDeleted :: "objStore \<Rightarrow> FileMeta \<Rightarrow> objStore" where
  "emitDeleted st meta =
     (if IsDeleted meta
      then EmitEventAnnounce st \<lparr>Type = EventFileDeleted, FileMeta = Some meta, OpaqueData = []\<rparr>
      else EmitEventAnnounce st \<lparr>Type = EventFileAdded, FileMeta = Some meta, OpaqueData = []\<rparr>)"

definition sync :: "Env \<Rightarrow> objStore \<Rightarrow> (bool \<times> objStore) outcome" where
  "sync env st =
     (case ListNodes env of
        Inl err \<Rightarrow> Fatal ''[WARN] list nodes failed, sync cancelled:'' err
      | Inr nodes \<Rightarrow>
          if length nodes < 2 then Returned (False, st\<lparr>state := storeActiveState\<rparr>)
          else
            (let st1 = st\<lparr>state := storeInactiveState\<rparr>
             in case ExportAll env (journals st1) of
                  Inl err \<Rightarrow> Fatal ''[WARN] list journals failed, sync cancelled:'' err
                | Inr list \<Rightarrow>
                    (case syncPeers env (nodeID st1) list nodes of
                       (listAdded, listDeleted) \<Rightarrow>
                         (case mergeDeleted (mergeAdded listAdded) listDeleted of
                            (setAdded, setDeleted) \<Rightarrow>
                              (case Update env (journals st1) (nodeID st1) (syncMutator env setAdded) st1 of
                                 (Some err, js, st2) \<Rightarrow> Fatal ''[WARN] failed to sync journal:'' err
                               | (None, js, st2) \<Rightarrow>
                                   (let st3 = st2\<lparr>journals := js\<rparr>;
                                        st4 = st3\<lparr>state := storeActiveState\<rparr>
                                    in Returned
                                         (True,
                                          foldl emitDeleted st4
                                            (rangeMap (RangeDeleted env) setDeleted))))))))"

section \<open>Startup retry loop (objstore.go, NewStore, lines 155-165)\<close>

text \<open>
  \<open>for !synced { synced = store.sync(...); time.Sleep(...) }\<close>. The environment of the
  \<open>n\<close>-th round is \<open>rounds n\<close> (the membership may change between rounds); the sleeps are
  not modelled. The loop may run forever: the value \<open>None\<close> says that it does not end.
\<close>

partial_function (option) syncLoop :: "(nat \<Rightarrow> Env) \<Rightarrow> nat \<Rightarrow> objStore \<Rightarrow> objStore outcome option" where
  "syncLoop rounds n st =
     (case sync (rounds n) st of
        Fatal msg err \<Rightarrow> Some (Fatal msg err)
      | Returned (synced, st') \<Rightarrow>
          if synced then Some (Returned st') else syncLoop rounds (Suc n) st')"

section \<open>Remote storage listing (storage/remote.go, ListObjects, lines 106-138)\<close>

text \<open>
  The request and the response of the provider call \<open>ListObjectsV2\<close>, with the fields
  the provider's SDK gives them; a Go pointer is an option. In a response,
  \<open>Output_ContinuationToken\<close> is the field \<open>ContinuationToken\<close> (the token the request
  carried, returned with the response) and \<open>NextContinuationToken\<close> is the token of the
  page that follows. Times are instants counted from the zero time.
\<close>

record ListObjectsV2Input =
  Bucket :: "string option"
  Prefix :: "string option"
  StartAfter :: "string option"
  MaxKeys :: "int option"
  ContinuationToken :: "string option"

record Object =
  Object_Key :: "string option"
  Object_ETag :: "string option"
  Object_LastModified :: "int option"
  Object_Size :: "int option"

record ListObjectsV2Output =
  Contents :: "Object list"
  IsTruncated :: "bool option"
  Output_ContinuationToken :: "string option"
  NextContinuationToken :: "string option"

record Spec =
  Path :: string
  Key :: string
  Body :: "bytes option"
  ETag :: string
  Version :: string
  UpdatedAt :: int
  Meta :: "(string \<times> string) list"
  Spec_Size :: int

definition fullPath :: "string \<Rightarrow> string \<Rightarrow> string" where
  "fullPath bucket key = ''s3://'' @ bucket @ ''/'' @ key"

definition awsStringMaybe :: "string list \<Rightarrow> string option" where
  "awsStringMaybe v = (case v of [] \<Rightarrow> None | x # _ \<Rightarrow> Some x)"

definition StringValue :: "string option \<Rightarrow> string" where
  "StringValue p = (case p of None \<Rightarrow> [] | Some v \<Rightarrow> v)"

definition TimeValue :: "int option \<Rightarrow> int" where
  "TimeValue p = (case p of None \<Rightarrow> 0 | Some v \<Rightarrow> v)"

definition Int64Value :: "int option \<Rightarrow> int" where
  "Int64Value p = (case p of None \<Rightarrow> 0 | Some v \<Rightarrow> v)"

definition objectSpec :: "string \<Rightarrow> Object \<Rightarrow> Spec" where
  "objectSpec bucket obj =
     (let key = StringValue (Object_Key obj)
      in \<lparr>Path = fullPath bucket key, Key = key, Body = None,
          ETag = StringValue (Object_ETag obj), Version = [],
          UpdatedAt = TimeValue (Object_LastModified obj), Meta = [],
          Spec_Size = Int64Value (Object_Size obj)\<rparr>)"

text \<open>
  A call of \<open>ListObjects\<close> returns a listing, returns an error, or panics (the code
  dereferences \<open>IsTruncated\<close>); the loop has no bound, and \<open>None\<close> says that it does not
  end. The provider is the function \<open>cli\<close> from requests to responses.
\<close>

datatype 'a result = Ok 'a | Err error | Panic string

partial_function (option) listObjectsLoop ::
  "(ListObjectsV2Input \<Rightarrow> error + ListObjectsV2Output) \<Rightarrow> string \<Rightarrow> string \<Rightarrow> string list
     \<Rightarrow> string option \<Rightarrow> Spec list \<Rightarrow> Spec list result option" where
  "listObjectsLoop cli bucket prefix startAfter token specs =
     (case cli \<lparr>Bucket = Some bucket, Prefix = Some prefix, StartAfter = awsStringMaybe startAfter,
                MaxKeys = Some 100, ContinuationToken = token\<rparr> of
        Inl err \<Rightarrow> Some (Err err)
      | Inr list \<Rightarrow>
          (let specs' = specs @ map (objectSpec bucket) (Contents list);
               token' = Output_ContinuationToken list
           in case IsTruncated list of
                None \<Rightarrow> Some (Panic ''invalid memory address or nil pointer dereference'')
              | Some truncated \<Rightarrow>
                  if truncated = False then Some (Ok specs')
                  else if token' = None then Some (Ok specs')
                  else listObjectsLoop cli bucket prefix startAfter token' specs'))"

definition ListObjects ::
  "(ListObjectsV2Input \<Rightarrow> error + ListObjectsV2Output) \<Rightarrow> string \<Rightarrow> string \<Rightarrow> string list
     \<Rightarrow> Spec list result option" where
  "ListObjects cli bucket prefix startAfter = listObjectsLoop cli bucket prefix startAfter None []"

section \<open>Concrete stores, environments and records\<close>

text \<open>
  A store of node \<open>n1\<close> with an empty journal of its own, an environment in which no
  operation fails and the cluster lists this node only, and file metas with the given
  id, timestamp, consistency level and tombstone flag.
\<close>

definition emptyStore :: objStore where
  "emptyStore =
     \<lparr>nodeID = ''n1'', state = storeInactiveState, localStorage = [], remoteStorage = [],
      journals = [(''n1'', [])], outboundPump = [], inboundPump = []\<rparr>"

definition soloEnv :: Env where
  "soloEnv =
     \<lparr>WriteFault = (\<lambda>key. None), ReadFault = (\<lambda>key. None), UploadFault = (\<lambda>key. None),
      ForEachFault = None, ForEachUpdateFault = None, UpdateFault = None, ExportAllFault = None,
      SetFault = (\<lambda>jid key. None), DeleteFault = (\<lambda>jid key. None),
      ListNodes = Inr [NodeInfo ''n1''], Sync = (\<lambda>peer list. Inr ([], [])),
      Schedule = [], RangeAdded = [], RangeDeleted = []\<rparr>"

definition fileMeta :: "string \<Rightarrow> int \<Rightarrow> ConsistencyLevel \<Rightarrow> bool \<Rightarrow> FileMeta" where
  "fileMeta key ts level deleted =
     \<lparr>ID = key, Name = [], Size = 0, Timestamp = ts, Consistency = level,
      IsSymlink = False, IsDeleted = deleted\<rparr>"

text \<open>
  The solo store after the object \<open>a\<close> with body \<open>hello\<close> was put: the file is on the disk
  and the own journal holds its record. A store whose second journal, of node \<open>n2\<close>,
  holds an older record for \<open>a\<close>. A store that has a journal of node \<open>n2\<close> only.
  The solo environment with a failing journal scan.
\<close>

definition helloStore :: objStore where
  "helloStore =
     emptyStore\<lparr>localStorage := [(''a'', ''hello'')],
                journals := [(''n1'', [(''a'', fileMeta ''a'' 1 ConsistencyLocal False)])]\<rparr>"

definition twoJournalStore :: objStore where
  "twoJournalStore =
     emptyStore\<lparr>journals := [(''n1'', []), (''n2'', [(''a'', fileMeta ''a'' 0 ConsistencyLocal False)])]\<rparr>"

definition foreignStore :: objStore where
  "foreignStore = emptyStore\<lparr>journals := [(''n2'', [])]\<rparr>"

definition scanFailEnv :: Env where
  "scanFailEnv = soloEnv\<lparr>ForEachFault := Some (New ''journal scan failed'')\<rparr>"

text \<open>The rounds of a node that stays alone: every round meets the solo environment.\<close>

definition soloRounds :: "nat \<Rightarrow> Env" where
  "soloRounds n = soloEnv"

text \<open>
  A cluster of two nodes in which the peer \<open>n2\<close> answers every sync request with one add
  (id \<open>b\<close>, timestamp 100, LOCAL) and one tombstone (id \<open>c\<close>, timestamp 60), and the
  store that the first sync round of the empty store reaches there.
\<close>

definition twoNodeEnv :: Env where
  "twoNodeEnv =
     soloEnv\<lparr>ListNodes := Inr [NodeInfo ''n1'', NodeInfo ''n2''],
             Sync := (\<lambda>peer list. Inr ([fileMeta ''b'' 100 ConsistencyLocal False],
                                        [fileMeta ''c'' 60 ConsistencyLocal True]))\<rparr>"

definition syncedStore :: objStore where
  "syncedStore =
     emptyStore\<lparr>state := storeActiveState,
                journals := [(''n1'', [(''b'', (fileMeta ''b'' 100 ConsistencyLocal False)\<lparr>IsSymlink := True\<rparr>)])],
                outboundPump := [\<lparr>Type = EventFileDeleted,
                                  FileMeta = Some (fileMeta ''c'' 60 ConsistencyLocal True),
                                  OpaqueData = []\<rparr>]\<rparr>"

text \<open>
  A cluster of three nodes in which the peers hold different records of the id \<open>a\<close> and
  answer every sync request with them: \<open>n2\<close> with timestamp 10, \<open>n3\<close> with timestamp 5.
  Under the empty schedule the goroutine of \<open>n2\<close> appends first; under the second
  schedule the goroutine of \<open>n3\<close> takes its four steps first.
\<close>

definition threeNodeEnv :: Env where
  "threeNodeEnv =
     soloEnv\<lparr>ListNodes := Inr [NodeInfo ''n1'', NodeInfo ''n2'', NodeInfo ''n3''],
             Sync := (\<lambda>peer list.
                        if peer = ''n2'' then Inr ([fileMeta ''a'' 10 ConsistencyLocal False], [])
                        else Inr ([fileMeta ''a'' 5 ConsistencyLocal False], []))\<rparr>"

definition n3FirstEnv :: Env where
  "n3FirstEnv = threeNodeEnv\<lparr>Schedule := [''n3'', ''n3'', ''n3'', ''n3'']\<rparr>"

text \<open>
  The stores that the empty store reaches in that cluster: after one round under the
  empty schedule, and after a second round under the schedule that lets \<open>n3\<close> go first.
\<close>

definition syncedOnce :: objStore where
  "syncedOnce =
     emptyStore\<lparr>state := storeActiveState,
                journals := [(''n1'', [(''a'', (fileMeta ''a'' 5 ConsistencyLocal False)\<lparr>IsSymlink := True\<rparr>)])]\<rparr>"

definition syncedTwice :: objStore where
  "syncedTwice =
     emptyStore\<lparr>state := storeActiveState,
                journals := [(''n1'', [(''a'', (fileMeta ''a'' 10 ConsistencyLocal False)\<lparr>IsSymlink := True\<rparr>)])]\<rparr>"

text \<open>
  The same cluster with peers that hold different ids (\<open>n2\<close> the id \<open>b\<close>, \<open>n3\<close> the id
  \<open>a\<close>), under a schedule in which both goroutines load \<open>listAdded\<close> before either
  stores it.
\<close>

definition racingEnv :: Env where
  "racingEnv =
     soloEnv\<lparr>ListNodes := Inr [NodeInfo ''n1'', NodeInfo ''n2'', NodeInfo ''n3''],
             Sync := (\<lambda>peer list.
                        if peer = ''n2'' then Inr ([fileMeta ''b'' 1 ConsistencyLocal False], [])
                        else Inr ([fileMeta ''a'' 1 ConsistencyLocal False], [])),
             Schedule := [''n2'', ''n3'', ''n2'', ''n3'']\<rparr>"

text \<open>
  A provider that follows the paging protocol of the S3 call \<open>ListObjectsV2\<close> on a bucket
  with the given objects: a page holds at most \<open>MaxKeys\<close> objects, \<open>IsTruncated\<close> tells
  whether more follow, the response returns the request's token in \<open>ContinuationToken\<close>
  and gives the token of the next page in \<open>NextContinuationToken\<close> (a token names the
  offset of its page). A bucket of 101 objects.
\<close>

definition bucketProvider :: "Object list \<Rightarrow> ListObjectsV2Input \<Rightarrow> error + ListObjectsV2Output" where
  "bucketProvider objs req =
     (let start = (case ContinuationToken req of None \<Rightarrow> 0 | Some t \<Rightarrow> length t);
          n = (case MaxKeys req of None \<Rightarrow> 1000 | Some k \<Rightarrow> nat k);
          more = (start + n < length objs)
      in Inr \<lparr>Contents = take n (drop start objs),
              IsTruncated = Some more,
              Output_ContinuationToken = ContinuationToken req,
              NextContinuationToken = (if more then Some (replicate (start + n) CHR ''t'') else None)\<rparr>)"

definition object :: "nat \<Rightarrow> Object" where
  "object i =
     \<lparr>Object_Key = Some (replicate (Suc i) CHR ''k''), Object_ETag = None,
      Object_LastModified = None, Object_Size = Some 1\<rparr>"

definition bucket101 :: "Object list" where
  "bucket101 = map object [0..<101]"

section \<open>Properties\<close>

subsection \<open>The merge step\<close>

lemma addedStep_eq: "addedStep setAdded meta = AList.update (ID meta) meta setAdded"
  by (simp add: addedStep_def split: option.split)

lemma storeDeleted_eq: "storeDeleted setDeleted meta = AList.update (ID meta) meta setDeleted"
  by (simp add: storeDeleted_def split: option.split)

text \<open>
  For every list, the merge of the added metas holds for each id the record that comes
  last in the list, whatever the timestamps.
\<close>

lemma foldl_addedStep_map_of:
  "map_of (foldl addedStep A xs) = map_of A ++ map_of (rev (map (\<lambda>m. (ID m, m)) xs))"
  by (induction xs arbitrary: A)
     (auto simp: addedStep_eq update_conv' map_add_def fun_eq_iff split: option.splits)

lemma mergeAdded_map_of:
  "map_of (mergeAdded xs) = map_of (rev (map (\<lambda>m. (ID m, m)) xs))"
  by (simp add: mergeAdded_def foldl_addedStep_map_of)

text \<open>
  Claim C1. The merge of the added metas should keep, for each id, the record with the
  greatest timestamp, and likewise the merge of the deleted metas. On the list of two
  records for id \<open>a\<close> with timestamps 10 and then 5, each of the two merges keeps the
  record with timestamp 5: the comparison of the timestamps has no effect, since the
  record is stored in either case.
\<close>

theorem mergeAdded_last_record_wins:
  "map_of (mergeAdded [fileMeta ''a'' 10 ConsistencyLocal False,
                       fileMeta ''a'' 5 ConsistencyLocal False]) ''a''
     = Some (fileMeta ''a'' 5 ConsistencyLocal False) \<and>
   map_of (snd (mergeDeleted [] [fileMeta ''a'' 10 ConsistencyLocal True,
                                 fileMeta ''a'' 5 ConsistencyLocal True])) ''a''
     = Some (fileMeta ''a'' 5 ConsistencyLocal True)"
  by (simp add: mergeAdded_def mergeDeleted_def addedStep_def deletedStep_def
      storeDeleted_def fileMeta_def)

text \<open>
  The reconciliation loop, for an id that \<open>setAdded\<close> does not hold: the id stays absent
  from \<open>setAdded\<close>, and \<open>setDeleted\<close> ends with a delete record of the list for that id
  when the list has one.
\<close>

lemma deleted_fold_absent:
  assumes "map_of A k = None"
  shows "map_of (fst (foldl deletedStep (A, D) ds)) k = None \<and>
         (if \<exists>d\<in>set ds. ID d = k
          then \<exists>d\<in>set ds. ID d = k \<and> map_of (snd (foldl deletedStep (A, D) ds)) k = Some d
          else map_of (snd (foldl deletedStep (A, D) ds)) k = map_of D k)"
  using assms
proof (induction ds arbitrary: A D)
  case Nil
  then show ?case by simp
next
  case (Cons x xs)
  obtain A1 D1 where s: "deletedStep (A, D) x = (A1, D1)"
    by (cases "deletedStep (A, D) x")
  have a1: "map_of A1 k = None"
    using s Cons.prems
    by (auto simp: deletedStep_def delete_conv split: option.splits if_splits)
  have d1: "map_of D1 k = (if ID x = k then Some x else map_of D k)"
    using s Cons.prems
    by (auto simp: deletedStep_def storeDeleted_eq update_conv split: option.splits if_splits)
  show ?case
    using Cons.IH[OF a1, of D1] s d1 by (auto split: if_splits)
qed

text \<open>
  The same loop for an id that \<open>setAdded\<close> holds with record \<open>a\<close>: the add survives
  exactly when every delete record for the id is older than \<open>a\<close>.
\<close>

lemma deleted_fold_present:
  assumes "map_of A k = Some a"
  shows "if \<forall>d\<in>set ds. ID d = k \<longrightarrow> Timestamp d < Timestamp a
         then map_of (fst (foldl deletedStep (A, D) ds)) k = Some a \<and>
              map_of (snd (foldl deletedStep (A, D) ds)) k = map_of D k
         else map_of (fst (foldl deletedStep (A, D) ds)) k = None \<and>
              (\<exists>d\<in>set ds. ID d = k \<and> map_of (snd (foldl deletedStep (A, D) ds)) k = Some d)"
  using assms
proof (induction ds arbitrary: A D)
  case Nil
  then show ?case by simp
next
  case (Cons x xs)
  obtain A1 D1 where s: "deletedStep (A, D) x = (A1, D1)"
    by (cases "deletedStep (A, D) x")
  show ?case
  proof (cases "ID x = k \<and> \<not> Timestamp x < Timestamp a")
    case True
    have a1: "map_of A1 k = None"
      using s Cons.prems True
      by (auto simp: deletedStep_def delete_conv split: option.splits if_splits)
    have d1: "map_of D1 k = Some x"
      using s Cons.prems True
      by (auto simp: deletedStep_def storeDeleted_eq update_conv split: option.splits if_splits)
    show ?thesis
      using deleted_fold_absent[OF a1, of D1 xs] s d1 True by (auto split: if_splits)
  next
    case False
    have a1: "map_of A1 k = Some a"
      using s Cons.prems False
      by (auto simp: deletedStep_def delete_conv split: option.splits if_splits)
    have d1: "map_of D1 k = map_of D k"
      using s Cons.prems False
      by (auto simp: deletedStep_def storeDeleted_eq update_conv split: option.splits if_splits)
    show ?thesis
      using Cons.IH[OF a1, of D1] s d1 False by (auto split: if_splits)
  qed
qed

text \<open>
  What the reconciliation loop does decide. Let \<open>setAdded\<close> hold the record \<open>a\<close> for the
  id \<open>k\<close>, and let the peers have reported at least one delete for \<open>k\<close>. If \<open>a\<close> is
  strictly newer than every reported delete for \<open>k\<close>, no delete is kept and the add
  survives unchanged. Otherwise, ties included, \<open>k\<close> is removed from the adds and some
  reported delete for \<open>k\<close> is kept, which need not be the newest one.
\<close>

lemma reconcile_decides:
  assumes "map_of setAdded k = Some a" and "k \<in> ID ` set listDeleted"
  shows "case mergeDeleted setAdded listDeleted of (A', D') \<Rightarrow>
           if Timestamp a > Max (Timestamp ` {d \<in> set listDeleted. ID d = k})
           then map_of A' k = Some a \<and> map_of D' k = None
           else map_of A' k = None \<and> (\<exists>d\<in>set listDeleted. ID d = k \<and> map_of D' k = Some d)"
proof -
  let ?S = "Timestamp ` {d \<in> set listDeleted. ID d = k}"
  have fin: "finite ?S" by simp
  have ne: "?S \<noteq> {}" using assms(2) by auto
  have iff: "(Max ?S < Timestamp a) =
             (\<forall>d\<in>set listDeleted. ID d = k \<longrightarrow> Timestamp d < Timestamp a)"
    using Max_less_iff[OF fin ne, of "Timestamp a"] by auto
  show ?thesis
    using deleted_fold_present[OF assms(1), of listDeleted "[]"] iff
    by (auto simp: mergeDeleted_def split: prod.splits if_splits)
qed

text \<open>
  Claim C4. For an id with a merged add and a merged delete, the add should survive
  when it is strictly newer than the delete, and otherwise the delete should be kept.
  The peers report the add of \<open>k\<close> with timestamp 50 and two deletes of \<open>k\<close>, with
  timestamps 60 and then 40. The first delete removes the add and is stored; the second
  finds no add any more and overwrites the first. The add is gone and the delete that
  is kept has timestamp 40: it is not the merged delete (timestamp 60), and it is older
  than the add it stands against.
\<close>

theorem reconcile_keeps_older_delete:
  "mergeDeleted (mergeAdded [fileMeta ''k'' 50 ConsistencyLocal False])
                [fileMeta ''k'' 60 ConsistencyLocal True, fileMeta ''k'' 40 ConsistencyLocal True] =
     ([], [(''k'', fileMeta ''k'' 40 ConsistencyLocal True)])"
  by (simp add: mergeAdded_def mergeDeleted_def addedStep_eq deletedStep_def storeDeleted_eq
      fileMeta_def)

subsection \<open>The write path\<close>

lemma storeLocal_written:
  "storeLocal env st r meta = ((n, None), st') \<Longrightarrow> n = int (length r)"
  by (auto simp: storeLocal_def localStorage_Write_def Let_def
      split: option.splits prod.splits if_splits)

text \<open>
  With consistency S3 or FULL a successful \<open>PutObject\<close> returns the number of bytes
  written locally; with consistency LOCAL it returns 0 whatever was written.
\<close>

lemma PutObject_remote_returns_written:
  assumes "Consistency meta \<noteq> ConsistencyLocal"
    and "PutObject env st r meta = ((n, None), st')"
  shows "n = int (length r)"
  using assms
  by (auto simp: PutObject_def Let_def split: option.splits prod.splits if_splits sum.splits
      dest: storeLocal_written)

lemma PutObject_local_returns_0:
  assumes "Consistency meta = ConsistencyLocal"
    and "PutObject env st r meta = ((n, None), st')"
  shows "n = 0"
  using assms
  by (auto simp: PutObject_def Let_def split: option.splits prod.splits if_splits sum.splits)

text \<open>
  Claim C2. A successful \<open>PutObject\<close> should return the number of bytes written to
  local storage, 5 for the body \<open>hello\<close> with consistency LOCAL. On the solo node the
  call succeeds, the five bytes are on the local disk, the journal holds the record and
  the announce is queued, and the value returned is 0.
\<close>

theorem PutObject_local_hello_returns_zero:
  "PutObject soloEnv emptyStore ''hello'' (fileMeta ''a'' 1 ConsistencyLocal False) =
     ((0, None),
      emptyStore\<lparr>localStorage := [(''a'', ''hello'')],
                 journals := [(''n1'', [(''a'', fileMeta ''a'' 1 ConsistencyLocal False)])],
                 outboundPump := [\<lparr>Type = EventFileAdded,
                                   FileMeta = Some (fileMeta ''a'' 1 ConsistencyLocal False),
                                   OpaqueData = []\<rparr>]\<rparr>)"
  by (simp add: PutObject_def storeLocal_def localStorage_Write_def ForEachUpdate_def
      storeLocalMutator_def Journal_Set_def Journal_Delete_def EmitEventAnnounce_def
      soloEnv_def emptyStore_def fileMeta_def ConsistencyLocal_def Let_def)

text \<open>
  Claim C10. When the consistency level of the meta is none of LOCAL, S3 and FULL,
  \<open>PutObject\<close> returns 0 and an error and the store is unchanged: nothing is written to
  local or remote storage, no journal is mutated and no announce is queued. \<open>Check\<close>
  rejects the same levels.
\<close>

theorem PutObject_unknown_consistency:
  assumes "Consistency meta \<noteq> ConsistencyLocal"
    and "Consistency meta \<noteq> ConsistencyS3"
    and "Consistency meta \<noteq> ConsistencyFull"
  shows "PutObject env st r meta =
           ((0, Some (Errorf ''objstore: unknown consistency %v'' [ArgInt (Consistency meta)])), st) \<and>
         Check (Consistency meta) = (0, Some (New ''objstore: invalid consistency level''))"
  using assms by (simp add: PutObject_def Check_def)

theorem PutObject_unknown_consistency_witness:
  "Consistency (fileMeta ''a'' 1 7 False) \<noteq> ConsistencyLocal \<and>
   Consistency (fileMeta ''a'' 1 7 False) \<noteq> ConsistencyS3 \<and>
   Consistency (fileMeta ''a'' 1 7 False) \<noteq> ConsistencyFull \<and>
   PutObject soloEnv emptyStore ''hello'' (fileMeta ''a'' 1 7 False) =
     ((0, Some (Errorf ''objstore: unknown consistency %v'' [ArgInt 7])), emptyStore)"
proof -
  have c: "Consistency (fileMeta ''a'' 1 7 False) = 7"
    by (simp add: fileMeta_def)
  have h1: "Consistency (fileMeta ''a'' 1 7 False) \<noteq> ConsistencyLocal"
    and h2: "Consistency (fileMeta ''a'' 1 7 False) \<noteq> ConsistencyS3"
    and h3: "Consistency (fileMeta ''a'' 1 7 False) \<noteq> ConsistencyFull"
    by (simp_all add: c ConsistencyLocal_def ConsistencyS3_def ConsistencyFull_def)
  from PutObject_unknown_consistency[OF h1 h2 h3, of soloEnv emptyStore "''hello''"] h1 h2 h3 c
  show ?thesis by simp
qed

text \<open>
  What a successful journal mutation of \<open>storeLocal\<close> does to the journals: the owner's
  journal gets the record, every other journal loses the id, and the flag tells whether
  the owner's journal was met.
\<close>

lemma storeLocal_loop:
  "forEachUpdateLoop (storeLocalMutator env owner meta) js ok = (None, js', ok') \<Longrightarrow>
     js' = map (\<lambda>(jid, j). (jid, if jid = owner then AList.update (ID meta) meta j
                                   else AList.delete (ID meta) j)) js \<and>
     ok' = (ok \<or> owner \<in> fst ` set js)"
proof (induction js arbitrary: ok js')
  case Nil
  then show ?case by simp
next
  case (Cons jj js)
  obtain jid j where jj: "jj = (jid, j)" by (cases jj)
  show ?case
    using Cons.prems Cons.IH unfolding jj
    by (auto simp: storeLocalMutator_def Journal_Set_def Journal_Delete_def
        split: option.splits prod.splits if_splits)
qed

lemma distinct_filter_fst:
  "distinct (map fst js) \<Longrightarrow> length (filter (\<lambda>jj. fst jj = k) js) \<le> 1"
proof (induction js)
  case Nil
  then show ?case by simp
next
  case (Cons a js)
  then show ?case
    by (auto simp: filter_empty_conv image_iff)
qed

lemma storeLocal_success:
  assumes "storeLocal env st r meta = ((n, None), st')"
  shows "journals st' = map (\<lambda>(jid, j). (jid, if jid = nodeID st then AList.update (ID meta) meta j
                                   else AList.delete (ID meta) j)) (journals st) \<and>
         nodeID st \<in> fst ` set (journals st)"
  using assms
  by (auto simp: storeLocal_def Let_def ForEachUpdate_def
      split: option.splits prod.splits if_splits dest!: storeLocal_loop)

lemma storeLocal_no_journal:
  assumes "nodeID st \<notin> fst ` set (journals st)"
  shows "snd (fst (storeLocal env st r meta)) \<noteq> None"
proof (cases "storeLocal env st r meta")
  case (Pair res st')
  obtain n e where res: "res = (n, e)" by (cases res)
  show ?thesis
  proof (cases e)
    case None
    with Pair res storeLocal_success[of env st r meta n st'] assms show ?thesis by simp
  next
    case (Some a)
    with Pair res show ?thesis by simp
  qed
qed

lemma PutObject_local_success:
  assumes "Consistency meta = ConsistencyLocal"
    and "PutObject env st r meta = ((n, None), st')"
  shows "\<exists>m st1. storeLocal env st r meta = ((m, None), st1) \<and> journals st' = journals st1"
  using assms
  by (auto simp: PutObject_def EmitEventAnnounce_def split: option.splits prod.splits if_splits)

lemma PutObject_error_of_storeLocal:
  assumes "snd (fst (storeLocal env st r meta)) \<noteq> None"
  shows "snd (fst (PutObject env st r meta)) \<noteq> None"
  using assms
  by (cases "storeLocal env st r meta")
     (auto simp: PutObject_def split: option.splits prod.splits if_splits)

text \<open>
  Claim C5. After a successful \<open>PutObject\<close> with consistency LOCAL, the journals are the
  former ones with the id set in the owning journal and deleted from every other
  journal; the owning journal exists; every journal holds the record exactly when it is
  the owning one, so with journals keyed by distinct node ids at most one journal holds
  a record for the id. When the owning journal is absent, \<open>PutObject\<close> returns an error.
\<close>

theorem PutObject_local_single_journal:
  "(Consistency meta = ConsistencyLocal \<longrightarrow> PutObject env st r meta = ((n, None), st') \<longrightarrow>
      journals st' = map (\<lambda>(jid, j). (jid, if jid = nodeID st then AList.update (ID meta) meta j
                                            else AList.delete (ID meta) j)) (journals st) \<and>
      nodeID st \<in> fst ` set (journals st) \<and>
      (\<forall>(jid, j) \<in> set (journals st').
          map_of j (ID meta) = (if jid = nodeID st then Some meta else None)) \<and>
      (distinct (map fst (journals st)) \<longrightarrow>
         length (filter (\<lambda>jj. map_of (snd jj) (ID meta) \<noteq> None) (journals st')) \<le> 1)) \<and>
   (nodeID st \<notin> fst ` set (journals st) \<longrightarrow> snd (fst (PutObject env st r meta)) \<noteq> None)"
proof (intro conjI impI)
  assume loc: "Consistency meta = ConsistencyLocal" and ok: "PutObject env st r meta = ((n, None), st')"
  from PutObject_local_success[OF loc ok] obtain m st1 where
    sl: "storeLocal env st r meta = ((m, None), st1)" and js: "journals st' = journals st1" by blast
  from storeLocal_success[OF sl] js
  show eq: "journals st' = map (\<lambda>(jid, j). (jid, if jid = nodeID st then AList.update (ID meta) meta j
                                            else AList.delete (ID meta) j)) (journals st)"
    and "nodeID st \<in> fst ` set (journals st)" by simp_all
  show rec: "\<forall>(jid, j) \<in> set (journals st').
          map_of j (ID meta) = (if jid = nodeID st then Some meta else None)"
    unfolding eq by (auto simp: update_conv delete_conv)
  assume d: "distinct (map fst (journals st))"
  have fst_eq: "map fst (journals st') = map fst (journals st)"
    unfolding eq by (induction "journals st") (auto split: prod.splits)
  have holds: "(map_of (snd jj) (ID meta) \<noteq> None) = (fst jj = nodeID st)"
    if "jj \<in> set (journals st')" for jj
  proof -
    obtain jid j where jj: "jj = (jid, j)" by (cases jj)
    from rec that jj have "map_of j (ID meta) = (if jid = nodeID st then Some meta else None)"
      by blast
    then show ?thesis by (simp add: jj)
  qed
  have "filter (\<lambda>jj. map_of (snd jj) (ID meta) \<noteq> None) (journals st')
          = filter (\<lambda>jj. fst jj = nodeID st) (journals st')"
    using holds by (intro filter_cong refl) blast
  moreover have "distinct (map fst (journals st'))" using d fst_eq by simp
  ultimately show "length (filter (\<lambda>jj. map_of (snd jj) (ID meta) \<noteq> None) (journals st')) \<le> 1"
    using distinct_filter_fst by metis
next
  assume "nodeID st \<notin> fst ` set (journals st)"
  then show "snd (fst (PutObject env st r meta)) \<noteq> None"
    by (intro PutObject_error_of_storeLocal storeLocal_no_journal)
qed

theorem PutObject_local_single_journal_witness:
  "Consistency (fileMeta ''a'' 1 ConsistencyLocal False) = ConsistencyLocal \<and>
   PutObject soloEnv twoJournalStore ''hello'' (fileMeta ''a'' 1 ConsistencyLocal False) =
     ((0, None),
      twoJournalStore\<lparr>localStorage := [(''a'', ''hello'')],
        journals := [(''n1'', [(''a'', fileMeta ''a'' 1 ConsistencyLocal False)]), (''n2'', [])],
        outboundPump := [\<lparr>Type = EventFileAdded,
                          FileMeta = Some (fileMeta ''a'' 1 ConsistencyLocal False),
                          OpaqueData = []\<rparr>]\<rparr>) \<and>
   distinct (map fst (journals twoJournalStore)) \<and>
   length (filter (\<lambda>jj. map_of (snd jj) ''a'' \<noteq> None)
      [(''n1'', [(''a'', fileMeta ''a'' 1 ConsistencyLocal False)]), (''n2'', [])]) \<le> 1 \<and>
   nodeID foreignStore \<notin> fst ` set (journals foreignStore) \<and>
   snd (fst (PutObject soloEnv foreignStore ''hello'' (fileMeta ''a'' 1 ConsistencyLocal False))) \<noteq> None"
proof -
  let ?m = "fileMeta ''a'' 1 ConsistencyLocal False"
  let ?st' = "twoJournalStore\<lparr>localStorage := [(''a'', ''hello'')],
        journals := [(''n1'', [(''a'', ?m)]), (''n2'', [])],
        outboundPump := [\<lparr>Type = EventFileAdded, FileMeta = Some ?m, OpaqueData = []\<rparr>]\<rparr>"
  have h1: "Consistency ?m = ConsistencyLocal"
    by (simp add: fileMeta_def)
  have h2: "PutObject soloEnv twoJournalStore ''hello'' ?m = ((0, None), ?st')"
    by (simp add: PutObject_def storeLocal_def localStorage_Write_def ForEachUpdate_def
      storeLocalMutator_def Journal_Set_def Journal_Delete_def EmitEventAnnounce_def
      soloEnv_def twoJournalStore_def emptyStore_def fileMeta_def ConsistencyLocal_def Let_def)
  have h3: "distinct (map fst (journals twoJournalStore))"
    by (simp add: twoJournalStore_def emptyStore_def)
  have h4: "nodeID foreignStore \<notin> fst ` set (journals foreignStore)"
    by (simp add: foreignStore_def emptyStore_def)
  have id: "ID ?m = ''a''" by (simp add: fileMeta_def)
  have js: "journals ?st' = [(''n1'', [(''a'', ?m)]), (''n2'', [])]" by simp
  from PutObject_local_single_journal[of ?m soloEnv twoJournalStore "''hello''" 0 ?st'] h1 h2 h3
  have c1: "length (filter (\<lambda>jj. map_of (snd jj) ''a'' \<noteq> None)
      [(''n1'', [(''a'', ?m)]), (''n2'', [])]) \<le> 1"
    unfolding id js by blast
  from PutObject_local_single_journal[of ?m soloEnv foreignStore "''hello''" 0 ?st'] h4
  have c2: "snd (fst (PutObject soloEnv foreignStore ''hello'' ?m)) \<noteq> None"
    by blast
  from h1 h2 h3 h4 c1 c2 show ?thesis by blast
qed

subsection \<open>The read path\<close>

text \<open>
  The scan of \<open>GetObject\<close> ends without an error, with the record of the first journal,
  in iteration order, that holds the id.
\<close>

lemma forEachLoop_findMeta:
  "forEachLoop (findMeta key) js acc =
     (None, case List.map_filter (\<lambda>jj. map_of (snd jj) key) js of [] \<Rightarrow> acc | m # _ \<Rightarrow> Some m)"
  by (induction js arbitrary: acc)
     (auto simp: findMeta_def Journal_Get_def List.map_filter_simps split: option.splits)

text \<open>
  Claim C6, as the code has it. When the journal scan itself fails, \<open>GetObject\<close> returns
  that error with no stream and no meta. Otherwise: when no journal holds a record for
  the id, it returns not-found with no meta; when the first matching record is a
  symlink, or is not a symlink but the local read fails, it returns not-found with the
  meta; in the remaining case it returns the local stream with the meta and no error.
\<close>

theorem GetObject_outcomes:
  "GetObject env st key =
     (case ForEachFault env of
        Some e \<Rightarrow> (None, None, Some e)
      | None \<Rightarrow>
         (case List.map_filter (\<lambda>jj. map_of (snd jj) key) (journals st) of
            [] \<Rightarrow> (None, None, Some ErrNotFound)
          | m # _ \<Rightarrow>
             if IsSymlink m then (None, Some m, Some ErrNotFound)
             else (case localStorage_Read env (localStorage st) key of
                     Inl err \<Rightarrow> (None, Some m, Some ErrNotFound)
                   | Inr f \<Rightarrow> (Some f, Some m, None))))"
  by (simp add: GetObject_def ForEach_def forEachLoop_findMeta split: option.splits list.splits)

text \<open>
  Claim C6, as stated, leaves the failing scan out: here a journal holds a record for
  \<open>a\<close> that is not a symlink and the local read of \<open>a\<close> succeeds, yet the result is
  neither the stream nor a not-found.
\<close>

theorem GetObject_scan_failure:
  "journals helloStore = [(''n1'', [(''a'', fileMeta ''a'' 1 ConsistencyLocal False)])] \<and>
   \<not> IsSymlink (fileMeta ''a'' 1 ConsistencyLocal False) \<and>
   localStorage_Read scanFailEnv (localStorage helloStore) ''a'' = Inr ''hello'' \<and>
   GetObject scanFailEnv helloStore ''a'' = (None, None, Some (New ''journal scan failed''))"
  by (simp add: helloStore_def emptyStore_def fileMeta_def localStorage_Read_def scanFailEnv_def
      soloEnv_def GetObject_def ForEach_def)

subsection \<open>The sync round on a solo node and the startup loop\<close>

lemma sync_solo:
  assumes "ListNodes env = Inr nodes" and "length nodes < 2"
  shows "sync env st = Returned (False, st\<lparr>state := storeActiveState\<rparr>)"
  using assms by (simp add: sync_def)

text \<open>
  A startup loop that ends has met a round whose node list was not shorter than 2.
\<close>

lemma syncLoop_solo_never_ends:
  assumes "syncLoop rounds k st = Some y"
  shows "\<exists>n\<ge>k. \<forall>nodes. ListNodes (rounds n) = Inr nodes \<longrightarrow> \<not> length nodes < 2"
proof (rule syncLoop.raw_induct[where P = "\<lambda>rounds k st y.
          \<exists>n\<ge>k. \<forall>nodes. ListNodes (rounds n) = Inr nodes \<longrightarrow> \<not> length nodes < 2", OF _ assms])
  fix loop :: "(nat \<Rightarrow> Env) \<Rightarrow> nat \<Rightarrow> objStore \<Rightarrow> objStore outcome option"
    and rounds n st y
  assume IH: "\<And>rounds n st y. loop rounds n st = Some y \<Longrightarrow>
                \<exists>m\<ge>n. \<forall>nodes. ListNodes (rounds m) = Inr nodes \<longrightarrow> \<not> length nodes < 2"
    and body: "(case sync (rounds n) st of
                  Fatal msg err \<Rightarrow> Some (Fatal msg err)
                | Returned (synced, st') \<Rightarrow>
                    if synced then Some (Returned st') else loop rounds (Suc n) st') = Some y"
  show "\<exists>m\<ge>n. \<forall>nodes. ListNodes (rounds m) = Inr nodes \<longrightarrow> \<not> length nodes < 2"
  proof (rule ccontr)
    assume "\<not> (\<exists>m\<ge>n. \<forall>nodes. ListNodes (rounds m) = Inr nodes \<longrightarrow> \<not> length nodes < 2)"
    then have solo: "\<forall>m\<ge>n. \<exists>nodes. ListNodes (rounds m) = Inr nodes \<and> length nodes < 2"
      by blast
    then obtain nodes where "ListNodes (rounds n) = Inr nodes" "length nodes < 2" by blast
    then have "sync (rounds n) st = Returned (False, st\<lparr>state := storeActiveState\<rparr>)"
      by (rule sync_solo)
    with body have "loop rounds (Suc n) (st\<lparr>state := storeActiveState\<rparr>) = Some y"
      by simp
    from IH[OF this] obtain m where m: "Suc n \<le> m"
      and ns: "\<And>nodes. ListNodes (rounds m) = Inr nodes \<Longrightarrow> \<not> length nodes < 2"
      by blast
    from m have "n \<le> m" by simp
    with solo obtain nodes' where "ListNodes (rounds m) = Inr nodes'" "length nodes' < 2"
      by blast
    with ns show False by blast
  qed
qed

lemma soloRounds_nodes: "ListNodes (soloRounds n) = Inr [NodeInfo ''n1'']"
  by (simp add: soloRounds_def soloEnv_def)

text \<open>
  Claim C3, as the code has it. When the cluster lists fewer than 2 nodes, a sync round
  sets the state to ACTIVE, changes nothing else and returns false; the startup loop
  runs another round whenever a round returns false, so it does not end for as long as
  every round finds fewer than 2 nodes.
\<close>

theorem sync_solo_retries:
  "(ListNodes env = Inr nodes \<longrightarrow> length nodes < 2 \<longrightarrow>
      sync env st = Returned (False, st\<lparr>state := storeActiveState\<rparr>)) \<and>
   ((\<forall>n\<ge>k. \<exists>nodes. ListNodes (rounds n) = Inr nodes \<and> length nodes < 2) \<longrightarrow>
      syncLoop rounds k st = None)"
proof (intro conjI impI)
  assume "ListNodes env = Inr nodes" "length nodes < 2"
  then show "sync env st = Returned (False, st\<lparr>state := storeActiveState\<rparr>)"
    by (rule sync_solo)
next
  assume solo: "\<forall>n\<ge>k. \<exists>nodes. ListNodes (rounds n) = Inr nodes \<and> length nodes < 2"
  show "syncLoop rounds k st = None"
  proof (cases "syncLoop rounds k st")
    case None
    then show ?thesis .
  next
    case (Some y)
    from syncLoop_solo_never_ends[OF this] solo show ?thesis by blast
  qed
qed

theorem sync_solo_retries_witness:
  "ListNodes soloEnv = Inr [NodeInfo ''n1''] \<and> length [NodeInfo ''n1''] < 2 \<and>
   sync soloEnv emptyStore = Returned (False, emptyStore\<lparr>state := storeActiveState\<rparr>) \<and>
   ListNodes (soloRounds 0) = Inr [NodeInfo ''n1''] \<and>
   ListNodes (soloRounds 1) = Inr [NodeInfo ''n1''] \<and>
   syncLoop soloRounds 0 emptyStore = None"
proof -
  have h1: "ListNodes soloEnv = Inr [NodeInfo ''n1'']" by (simp add: soloEnv_def)
  have h2: "length [NodeInfo ''n1''] < 2" by simp
  have h3: "\<forall>n\<ge>0. \<exists>nodes. ListNodes (soloRounds n) = Inr nodes \<and> length nodes < 2"
    by (simp add: soloRounds_nodes)
  note t = sync_solo_retries[where env = soloEnv and nodes = "[NodeInfo ''n1'']" and st = emptyStore
      and k = 0 and rounds = soloRounds]
  from t h1 h2 have c1: "sync soloEnv emptyStore = Returned (False, emptyStore\<lparr>state := storeActiveState\<rparr>)"
    by blast
  from t h3 have c2: "syncLoop soloRounds 0 emptyStore = None"
    by blast
  from h1 h2 c1 c2 soloRounds_nodes[of 0] soloRounds_nodes[of 1] show ?thesis by blast
qed

text \<open>
  Claim C3, as stated, has the round report completion and the startup loop end. On
  the solo node the round returns false and the loop never ends.
\<close>

theorem sync_solo_loop_counterexample:
  "sync soloEnv emptyStore = Returned (False, emptyStore\<lparr>state := storeActiveState\<rparr>) \<and>
   syncLoop soloRounds 0 emptyStore = None"
proof -
  have "syncLoop soloRounds 0 emptyStore = None"
  proof (cases "syncLoop soloRounds 0 emptyStore")
    case None
    then show ?thesis .
  next
    case (Some y)
    from syncLoop_solo_never_ends[OF this] show ?thesis
      by (simp add: soloRounds_nodes)
  qed
  moreover have "sync soloEnv emptyStore = Returned (False, emptyStore\<lparr>state := storeActiveState\<rparr>)"
    by (rule sync_solo[where nodes = "[NodeInfo ''n1'']"]) (simp_all add: soloEnv_def)
  ultimately show ?thesis by simp
qed

subsection \<open>Running the sync round again\<close>

text \<open>
  When the answer of a peer does not depend on the list it is sent, the goroutines
  spawned in a round, and so the answers collected under a given schedule, do not
  depend on it either.
\<close>

lemma spawnPeers_fixed:
  assumes "\<And>peer l l'. Sync env peer l = Sync env peer l'"
  shows "spawnPeers env self l nodes = spawnPeers env self l' nodes"
proof (induction nodes)
  case Nil
  then show ?case by simp
next
  case (Cons node nodes)
  have "Sync env (node_ID node) l = Sync env (node_ID node) l'" by (rule assms)
  with Cons.IH show ?case by (simp split: sum.splits)
qed

lemma syncPeers_fixed:
  assumes "\<And>peer l l'. Sync env peer l = Sync env peer l'"
  shows "syncPeers env self l nodes = syncPeers env self l' nodes"
  unfolding syncPeers_def using spawnPeers_fixed[OF assms, of self l nodes l'] by simp

text \<open>
  The maps built by the merge step have distinct keys, and every record is stored under
  its own id.
\<close>

lemma in_set_update:
  "x \<in> set (AList.update k v al) \<Longrightarrow> x = (k, v) \<or> x \<in> set al"
  by (induction al) (auto split: if_splits)

lemma in_set_delete: "x \<in> set (AList.delete k al) \<Longrightarrow> x \<in> set al"
  by (induction al) (auto split: if_splits)

lemma keyed_update:
  assumes "\<forall>x\<in>set A. ID (snd x) = fst x"
  shows "\<forall>x\<in>set (AList.update (ID m) m A). ID (snd x) = fst x"
  using assms in_set_update[of _ "ID m" m A] by fastforce

lemma keyed_delete:
  assumes "\<forall>x\<in>set A. ID (snd x) = fst x"
  shows "\<forall>x\<in>set (AList.delete k A). ID (snd x) = fst x"
  using assms in_set_delete[of _ k A] by blast

lemma mergeAdded_keyed:
  assumes "distinct (map fst A)" and "\<forall>x\<in>set A. ID (snd x) = fst x"
  shows "distinct (map fst (foldl addedStep A ms)) \<and>
         (\<forall>x\<in>set (foldl addedStep A ms). ID (snd x) = fst x)"
  using assms
proof (induction ms arbitrary: A)
  case Nil
  then show ?case by simp
next
  case (Cons m ms)
  have "distinct (map fst (addedStep A m))"
    using Cons.prems(1) by (simp add: addedStep_eq distinct_update)
  moreover have "\<forall>x\<in>set (addedStep A m). ID (snd x) = fst x"
    unfolding addedStep_eq using Cons.prems(2) by (rule keyed_update)
  ultimately show ?case using Cons.IH[of "addedStep A m"] by simp
qed

lemma deletedStep_keyed:
  assumes "distinct (map fst A)" and "\<forall>x\<in>set A. ID (snd x) = fst x"
  shows "distinct (map fst (fst (deletedStep (A, D) m))) \<and>
         (\<forall>x\<in>set (fst (deletedStep (A, D) m)). ID (snd x) = fst x)"
proof (cases "map_of A (ID m)")
  case None
  with assms show ?thesis by (simp add: deletedStep_def)
next
  case (Some mAdd)
  show ?thesis
  proof (cases "Timestamp mAdd > Timestamp m")
    case True
    with Some assms show ?thesis by (simp add: deletedStep_def)
  next
    case False
    with Some have "fst (deletedStep (A, D) m) = AList.delete (ID m) A"
      by (simp add: deletedStep_def)
    with assms keyed_delete[OF assms(2), of "ID m"] show ?thesis
      by (simp add: distinct_delete)
  qed
qed

lemma mergeDeleted_keyed:
  assumes "distinct (map fst A)" and "\<forall>x\<in>set A. ID (snd x) = fst x"
  shows "distinct (map fst (fst (foldl deletedStep (A, D) ds))) \<and>
         (\<forall>x\<in>set (fst (foldl deletedStep (A, D) ds)). ID (snd x) = fst x)"
  using assms
proof (induction ds arbitrary: A D)
  case Nil
  then show ?case by simp
next
  case (Cons d ds)
  obtain A1 D1 where s: "deletedStep (A, D) d = (A1, D1)" by (cases "deletedStep (A, D) d")
  from deletedStep_keyed[OF Cons.prems, of D d] s
  have "distinct (map fst A1)" "\<forall>x\<in>set A1. ID (snd x) = fst x" by simp_all
  from Cons.IH[OF this, of D1] s show ?case by simp
qed

text \<open>A \<open>range\<close> over such a map visits records with distinct ids.\<close>

lemma map_filter_keyed_ids:
  assumes "\<forall>x\<in>set m. ID (snd x) = fst x"
  shows "map ID (List.map_filter (map_of m) ks) = filter (\<lambda>k. map_of m k \<noteq> None) ks"
proof (induction ks)
  case Nil
  then show ?case by (simp add: List.map_filter_simps)
next
  case (Cons k ks)
  show ?case
  proof (cases "map_of m k")
    case None
    with Cons show ?thesis by (simp add: List.map_filter_simps)
  next
    case (Some v)
    then have "(k, v) \<in> set m" by (rule map_of_SomeD)
    with assms have "ID v = k" by fastforce
    with Some Cons show ?thesis by (simp add: List.map_filter_simps)
  qed
qed

lemma rangeMap_distinct_ids:
  assumes d: "distinct (map fst m)" and k: "\<forall>x\<in>set m. ID (snd x) = fst x"
  shows "distinct (map ID (rangeMap order m))"
proof -
  let ?rest = "filter (\<lambda>entry. fst entry \<notin> set order) m"
  have ids1: "map ID (List.map_filter (map_of m) (remdups order)) =
              filter (\<lambda>k. map_of m k \<noteq> None) (remdups order)"
    using k by (rule map_filter_keyed_ids)
  have "map (ID \<circ> snd) ?rest = map fst ?rest"
    using k by (intro map_cong refl) simp
  then have ids2: "map ID (map snd ?rest) = map fst ?rest" by (simp only: map_map)
  have d1: "distinct (filter (\<lambda>k. map_of m k \<noteq> None) (remdups order))" by simp
  have d2: "distinct (map fst ?rest)" using d by (rule distinct_map_filter)
  have disj: "set (filter (\<lambda>k. map_of m k \<noteq> None) (remdups order)) \<inter> set (map fst ?rest) = {}"
    by auto
  show ?thesis
    unfolding rangeMap_def map_append ids1 ids2 distinct_append
    using d1 d2 disj by simp
qed

lemma setAdded_keyed:
  assumes "mergeDeleted (mergeAdded la) ld = (A, D)"
  shows "distinct (map ID (rangeMap order A))"
proof -
  have "distinct (map fst (mergeAdded la)) \<and> (\<forall>x\<in>set (mergeAdded la). ID (snd x) = fst x)"
    unfolding mergeAdded_def by (rule mergeAdded_keyed) simp_all
  then have "distinct (map fst (fst (mergeDeleted (mergeAdded la) ld))) \<and>
         (\<forall>x\<in>set (fst (mergeDeleted (mergeAdded la) ld)). ID (snd x) = fst x)"
    unfolding mergeDeleted_def by (intro mergeDeleted_keyed) simp_all
  with assms have d: "distinct (map fst A)" and k: "\<forall>x\<in>set A. ID (snd x) = fst x" by simp_all
  then show ?thesis by (rule rangeMap_distinct_ids)
qed

text \<open>
  A pass of conditional stores under distinct keys, run again on its own result,
  changes nothing.
\<close>

lemma foldl_fixed: "(\<And>m. m \<in> set ms \<Longrightarrow> F j m = j) \<Longrightarrow> foldl F j ms = j"
  by (induction ms) auto

lemma cond_update_lookup:
  assumes F: "\<And>j m. F j m = (if c m then AList.update (k m) (v m) j else j)"
    and "distinct (map k ms)" and "m \<in> set ms" and "c m"
  shows "map_of (foldl F j ms) (k m) = Some (v m)"
  using assms(2,3)
proof (induction ms rule: rev_induct)
  case Nil
  then show ?case by simp
next
  case (snoc x xs)
  show ?case
  proof (cases "m = x")
    case True
    have "map_of (F (foldl F j xs) x) (k x) = Some (v x)"
      using \<open>c m\<close> True by (subst F) (simp add: update_conv)
    with True show ?thesis by simp
  next
    case False
    with snoc.prems have mx: "m \<in> set xs" and dx: "distinct (map k xs)"
      and nx: "k x \<notin> k ` set xs" by auto
    from mx nx have ne: "k m \<noteq> k x" by (metis imageI)
    from snoc.IH[OF dx mx] have IH: "map_of (foldl F j xs) (k m) = Some (v m)" .
    have "map_of (F (foldl F j xs) x) (k m) = map_of (foldl F j xs) (k m)"
      using ne by (subst F) (simp add: update_conv)
    with IH show ?thesis by simp
  qed
qed

lemma cond_update_fold_idem:
  assumes F: "\<And>j m. F j m = (if c m then AList.update (k m) (v m) j else j)"
    and d: "distinct (map k ms)"
  shows "foldl F (foldl F j ms) ms = foldl F j ms"
proof (rule foldl_fixed)
  fix m assume m: "m \<in> set ms"
  show "F (foldl F j ms) m = foldl F j ms"
  proof (cases "c m")
    case True
    from cond_update_lookup[where F = F, OF F d m True]
    have "map_of (foldl F j ms) (k m) = Some (v m)" .
    then show ?thesis using True by (subst F) (simp add: update_triv)
  next
    case False
    then show ?thesis by (subst F) simp
  qed
qed

text \<open>
  The journal that the loop over \<open>setAdded\<close> builds does not depend on the store it
  runs in; the loop leaves the node id and the journal set of the store alone.
\<close>

lemma applyAdded_journal:
  "fst (applyAdded env jid (j, st) m) =
     (if (IsDeleted m \<or> Consistency m = ConsistencyLocal \<or> Consistency m = ConsistencyS3 \<or>
          Consistency m = ConsistencyFull) \<and> SetFault env jid (ID m) = None
      then AList.update (ID m) (if IsDeleted m then m else m\<lparr>IsSymlink := True\<rparr>) j
      else j)"
  by (simp add: applyAdded_def Journal_Set_def Let_def split: option.splits)

lemma applyAdded_frame:
  "nodeID (snd (applyAdded env jid (j, st) m)) = nodeID st \<and>
   journals (snd (applyAdded env jid (j, st) m)) = journals st \<and>
   state (snd (applyAdded env jid (j, st) m)) = state st"
  by (simp add: applyAdded_def ReceiveEventAnnounce_def Let_def)

lemma foldl_applyAdded_journal:
  "fst (foldl (applyAdded env jid) (j, st) ms) =
     foldl (\<lambda>j m. fst (applyAdded env jid (j, st0) m)) j ms"
proof (induction ms arbitrary: j st)
  case Nil
  then show ?case by simp
next
  case (Cons m ms)
  obtain j1 st1 where s: "applyAdded env jid (j, st) m = (j1, st1)"
    by (cases "applyAdded env jid (j, st) m")
  have "j1 = fst (applyAdded env jid (j, st0) m)"
    using s applyAdded_journal[of env jid j st m] applyAdded_journal[of env jid j st0 m] by simp
  with Cons.IH[of j1 st1] s show ?case by simp
qed

lemma foldl_applyAdded_frame:
  "nodeID (snd (foldl (applyAdded env jid) (j, st) ms)) = nodeID st \<and>
   journals (snd (foldl (applyAdded env jid) (j, st) ms)) = journals st"
proof (induction ms arbitrary: j st)
  case Nil
  then show ?case by simp
next
  case (Cons m ms)
  obtain j1 st1 where s: "applyAdded env jid (j, st) m = (j1, st1)"
    by (cases "applyAdded env jid (j, st) m")
  with applyAdded_frame[of env jid j st m] Cons.IH[of j1 st1] show ?case by simp
qed

lemma foldl_emitDeleted_frame:
  "nodeID (foldl emitDeleted st ms) = nodeID st \<and>
   journals (foldl emitDeleted st ms) = journals st"
  by (induction ms arbitrary: st) (simp_all add: emitDeleted_def EmitEventAnnounce_def)

lemma foldl_applyAdded_idem:
  assumes "distinct (map ID ms)"
    and "foldl (applyAdded env jid) (j, st) ms = (j1, st1)"
  shows "fst (foldl (applyAdded env jid) (j1, st') ms) = j1"
proof -
  let ?F = "\<lambda>j m. fst (applyAdded env jid (j, st) m)"
  have F: "\<And>j m. ?F j m =
     (if (IsDeleted m \<or> Consistency m = ConsistencyLocal \<or> Consistency m = ConsistencyS3 \<or>
          Consistency m = ConsistencyFull) \<and> SetFault env jid (ID m) = None
      then AList.update (ID m) (if IsDeleted m then m else m\<lparr>IsSymlink := True\<rparr>) j
      else j)"
    by (rule applyAdded_journal)
  have j1: "j1 = foldl ?F j ms"
    using assms(2) foldl_applyAdded_journal[of env jid j st ms st] by simp
  have "fst (foldl (applyAdded env jid) (j1, st') ms) = foldl ?F j1 ms"
    by (rule foldl_applyAdded_journal)
  also have "\<dots> = j1"
    unfolding j1 by (rule cond_update_fold_idem[where F = ?F, OF F assms(1)])
  finally show ?thesis .
qed

text \<open>What a returning round with at least two nodes has done.\<close>

lemma sync_cluster_round:
  assumes "ListNodes env = Inr nodes" and "\<not> length nodes < 2"
    and "sync env st = Returned (b, st1)"
  shows "\<exists>list la ld A D j j1 st2.
           ExportAll env (journals st) = Inr list \<and>
           syncPeers env (nodeID st) list nodes = (la, ld) \<and>
           mergeDeleted (mergeAdded la) ld = (A, D) \<and>
           UpdateFault env = None \<and>
           map_of (journals st) (nodeID st) = Some j \<and>
           foldl (applyAdded env (nodeID st)) (j, st\<lparr>state := storeInactiveState\<rparr>) (rangeMap (RangeAdded env) A) = (j1, st2) \<and>
           b = True \<and>
           st1 = foldl emitDeleted
                   (st2\<lparr>journals := AList.update (nodeID st) j1 (journals st),
                        state := storeActiveState\<rparr>) (rangeMap (RangeDeleted env) D)"
  using assms
  by (auto simp: sync_def Let_def Update_def syncMutator_def
      split: sum.splits prod.splits option.splits if_splits)

lemma sync_cluster_round_result:
  assumes "ListNodes env = Inr nodes" and "\<not> length nodes < 2"
    and "ExportAll env (journals st) = Inr list"
    and "syncPeers env (nodeID st) list nodes = (la, ld)"
    and "mergeDeleted (mergeAdded la) ld = (A, D)"
    and "UpdateFault env = None"
    and "map_of (journals st) (nodeID st) = Some j"
    and "foldl (applyAdded env (nodeID st)) (j, st\<lparr>state := storeInactiveState\<rparr>) (rangeMap (RangeAdded env) A) = (j1, st2)"
  shows "sync env st = Returned (True,
           foldl emitDeleted
             (st2\<lparr>journals := AList.update (nodeID st) j1 (journals st),
                  state := storeActiveState\<rparr>) (rangeMap (RangeDeleted env) D))"
  using assms
  by (simp add: sync_def Let_def Update_def syncMutator_def)

text \<open>
  A second round that meets the same answers, the same schedule and the same iteration
  orders as the first returns the same boolean and leaves the journals exactly as the
  first round left them.
\<close>

lemma sync_again_same_run:
  assumes fixed: "\<And>peer l l'. Sync env peer l = Sync env peer l'"
    and r: "sync env st = Returned (b, st1)"
  shows "\<exists>st2. sync env st1 = Returned (b, st2) \<and> journals st2 = journals st1"
proof (cases "ListNodes env")
  case (Inl e)
  with r show ?thesis by (simp add: sync_def)
next
  case (Inr nodes)
  show ?thesis
  proof (cases "length nodes < 2")
    case True
    from sync_solo[OF Inr True, of st] r
    have b: "b = False" and st1: "st1 = st\<lparr>state := storeActiveState\<rparr>" by simp_all
    from sync_solo[OF Inr True, of st1] b st1 show ?thesis by simp
  next
    case False
    from sync_cluster_round[OF Inr False r] obtain list la ld A D j j1 st2 where
      ex: "ExportAll env (journals st) = Inr list"
      and peers: "syncPeers env (nodeID st) list nodes = (la, ld)"
      and merge: "mergeDeleted (mergeAdded la) ld = (A, D)"
      and uf: "UpdateFault env = None"
      and own: "map_of (journals st) (nodeID st) = Some j"
      and fold1: "foldl (applyAdded env (nodeID st)) (j, st\<lparr>state := storeInactiveState\<rparr>) (rangeMap (RangeAdded env) A) = (j1, st2)"
      and b: "b = True"
      and st1: "st1 = foldl emitDeleted
                   (st2\<lparr>journals := AList.update (nodeID st) j1 (journals st),
                        state := storeActiveState\<rparr>) (rangeMap (RangeDeleted env) D)"
      by blast
    have st2_id: "nodeID st2 = nodeID st"
      using foldl_applyAdded_frame[of env "nodeID st" j "st\<lparr>state := storeInactiveState\<rparr>" "rangeMap (RangeAdded env) A"]
        fold1 by simp
    have nid: "nodeID st1 = nodeID st"
      unfolding st1 using st2_id by (simp add: foldl_emitDeleted_frame)
    have js1: "journals st1 = AList.update (nodeID st) j1 (journals st)"
      unfolding st1 by (simp add: foldl_emitDeleted_frame)
    from ex obtain list' where ex1: "ExportAll env (journals st1) = Inr list'"
      by (auto simp: ExportAll_def split: option.splits)
    have peers1: "syncPeers env (nodeID st1) list' nodes = (la, ld)"
      unfolding nid
      using peers syncPeers_fixed[where env = env and self = "nodeID st" and l = list' and l' = list
          and nodes = nodes, OF fixed]
      by simp
    have own1: "map_of (journals st1) (nodeID st1) = Some j1"
      unfolding nid js1 by (simp add: update_conv)
    obtain j2 st3 where fold2:
      "foldl (applyAdded env (nodeID st1)) (j1, st1\<lparr>state := storeInactiveState\<rparr>) (rangeMap (RangeAdded env) A) = (j2, st3)"
      by (cases "foldl (applyAdded env (nodeID st1)) (j1, st1\<lparr>state := storeInactiveState\<rparr>) (rangeMap (RangeAdded env) A)")
    have "fst (foldl (applyAdded env (nodeID st)) (j1, st1\<lparr>state := storeInactiveState\<rparr>) (rangeMap (RangeAdded env) A)) = j1"
      using setAdded_keyed[OF merge] fold1 by (rule foldl_applyAdded_idem)
    with fold2 have j2: "j2 = j1" by (simp add: nid)
    from sync_cluster_round_result[OF Inr False ex1 peers1 merge uf own1 fold2]
    have "sync env st1 = Returned (True,
           foldl emitDeleted
             (st3\<lparr>journals := AList.update (nodeID st1) j2 (journals st1),
                  state := storeActiveState\<rparr>) (rangeMap (RangeDeleted env) D))" .
    moreover have "journals (foldl emitDeleted
             (st3\<lparr>journals := AList.update (nodeID st1) j2 (journals st1),
                  state := storeActiveState\<rparr>) (rangeMap (RangeDeleted env) D)) = journals st1"
      by (simp add: foldl_emitDeleted_frame j2 nid js1)
    ultimately show ?thesis using b by simp
  qed
qed

text \<open>The unfolding that evaluates a sync round on a concrete store and environment.\<close>

lemmas sync_eval =
  sync_def ExportAll_def syncPeers_def stepPeer_def finishPeer_def mergeAdded_def mergeDeleted_def
  addedStep_eq deletedStep_def storeDeleted_eq Update_def syncMutator_def rangeMap_def
  List.map_filter_simps applyAdded_def Journal_Set_def emitDeleted_def EmitEventAnnounce_def
  fileMeta_def ConsistencyLocal_def Let_def soloEnv_def emptyStore_def

text \<open>The first round of the empty store in the two-node cluster.\<close>

lemma sync_twoNode: "sync twoNodeEnv emptyStore = Returned (True, syncedStore)"
  by (simp add: sync_eval twoNodeEnv_def syncedStore_def)

text \<open>
  Claim C8. A second sync round with the same peer answers should leave the journals as
  the first round left them. The peers \<open>n2\<close> and \<open>n3\<close> answer every request with their
  records of the id \<open>a\<close>, timestamps 10 and 5. In the first round the goroutine of \<open>n2\<close>
  appends first and the journal records timestamp 5; in the second round the answers
  and the node list are the same, the goroutine of \<open>n3\<close> appends first, and the journal
  records timestamp 10. The merge keeps the record appended last, and the order of the
  appends is the scheduler's.
\<close>

theorem sync_again_other_arrival:
  "Sync n3FirstEnv = Sync threeNodeEnv \<and>
   ListNodes n3FirstEnv = ListNodes threeNodeEnv \<and>
   sync threeNodeEnv emptyStore = Returned (True, syncedOnce) \<and>
   sync n3FirstEnv syncedOnce = Returned (True, syncedTwice) \<and>
   journals syncedTwice \<noteq> journals syncedOnce"
proof -
  have "Sync n3FirstEnv = Sync threeNodeEnv" "ListNodes n3FirstEnv = ListNodes threeNodeEnv"
    by (simp_all add: n3FirstEnv_def)
  moreover have "sync threeNodeEnv emptyStore = Returned (True, syncedOnce)"
    by (simp add: sync_eval threeNodeEnv_def syncedOnce_def)
  moreover have "sync n3FirstEnv syncedOnce = Returned (True, syncedTwice)"
    by (simp add: sync_eval n3FirstEnv_def threeNodeEnv_def syncedOnce_def syncedTwice_def)
  moreover have "journals syncedTwice \<noteq> journals syncedOnce"
    by (simp add: syncedOnce_def syncedTwice_def emptyStore_def fileMeta_def)
  ultimately show ?thesis by simp
qed

text \<open>
  The appends are not guarded either. When both goroutines load \<open>listAdded\<close> before
  either stores it, the answer of \<open>n2\<close> is lost: the first round records the id \<open>a\<close>
  only, and a second round with the same answers, in which the goroutines do not
  interleave, records \<open>b\<close> as well.
\<close>

lemma sync_lost_append:
  "sync racingEnv emptyStore =
     Returned (True,
       emptyStore\<lparr>state := storeActiveState,
         journals := [(''n1'', [(''a'', (fileMeta ''a'' 1 ConsistencyLocal False)\<lparr>IsSymlink := True\<rparr>)])]\<rparr>) \<and>
   sync (racingEnv\<lparr>Schedule := []\<rparr>)
     (emptyStore\<lparr>state := storeActiveState,
         journals := [(''n1'', [(''a'', (fileMeta ''a'' 1 ConsistencyLocal False)\<lparr>IsSymlink := True\<rparr>)])]\<rparr>) =
     Returned (True,
       emptyStore\<lparr>state := storeActiveState,
         journals := [(''n1'', [(''a'', (fileMeta ''a'' 1 ConsistencyLocal False)\<lparr>IsSymlink := True\<rparr>),
                               (''b'', (fileMeta ''b'' 1 ConsistencyLocal False)\<lparr>IsSymlink := True\<rparr>)])]\<rparr>)"
  by (simp add: sync_eval racingEnv_def)

subsection \<open>Listing the remote storage\<close>

text \<open>
  One turn of the listing loop: a first page that is truncated and carries no
  \<open>ContinuationToken\<close> ends the listing with that page; a page that is not truncated ends
  the listing with everything collected so far.
\<close>

lemma listObjects_first_page_only:
  assumes "cli \<lparr>Bucket = Some bucket, Prefix = Some prefix, StartAfter = awsStringMaybe startAfter,
                MaxKeys = Some 100, ContinuationToken = None\<rparr> = Inr out"
    and "IsTruncated out = Some True"
    and "Output_ContinuationToken out = None"
  shows "ListObjects cli bucket prefix startAfter = Some (Ok (map (objectSpec bucket) (Contents out)))"
  unfolding ListObjects_def
  by (subst listObjectsLoop.simps) (simp add: assms Let_def)

lemma listObjects_last_page:
  assumes "cli \<lparr>Bucket = Some bucket, Prefix = Some prefix, StartAfter = awsStringMaybe startAfter,
                MaxKeys = Some 100, ContinuationToken = token\<rparr> = Inr out"
    and "IsTruncated out = Some False"
  shows "listObjectsLoop cli bucket prefix startAfter token specs =
           Some (Ok (specs @ map (objectSpec bucket) (Contents out)))"
  by (subst listObjectsLoop.simps) (simp add: assms Let_def)

text \<open>
  Claim C7. The listing should collect every page until the provider reports that no
  page follows. The bucket holds 101 objects and the provider follows the paging
  protocol; the first page holds 100 objects and is reported truncated, yet
  \<open>ListObjects\<close> returns after it with 100 objects. The loop takes the token for its
  next request from the response's \<open>ContinuationToken\<close>, which returns the token of the
  request just made (none on the first request), so it stops; the page that the provider
  would serve under the next token holds the object left out.
\<close>

theorem ListObjects_stops_after_first_page:
  "length bucket101 = 101 \<and>
   ListObjects (bucketProvider bucket101) ''bucket'' '''' [] =
     Some (Ok (map (objectSpec ''bucket'') (take 100 bucket101))) \<and>
   listObjectsLoop (bucketProvider bucket101) ''bucket'' '''' [] (Some (replicate 100 CHR ''t'')) [] =
     Some (Ok (map (objectSpec ''bucket'') (drop 100 bucket101)))"
proof -
  have len: "length bucket101 = 101" by (simp add: bucket101_def)
  have first: "bucketProvider bucket101 \<lparr>Bucket = Some ''bucket'', Prefix = Some '''',
                  StartAfter = awsStringMaybe [], MaxKeys = Some 100, ContinuationToken = None\<rparr> =
        Inr \<lparr>Contents = take 100 bucket101, IsTruncated = Some True,
             Output_ContinuationToken = None,
             NextContinuationToken = Some (replicate 100 CHR ''t'')\<rparr>"
    by (simp add: bucketProvider_def len Let_def)
  have second: "bucketProvider bucket101 \<lparr>Bucket = Some ''bucket'', Prefix = Some '''',
                  StartAfter = awsStringMaybe [], MaxKeys = Some 100,
                  ContinuationToken = Some (replicate 100 CHR ''t'')\<rparr> =
        Inr \<lparr>Contents = drop 100 bucket101, IsTruncated = Some False,
             Output_ContinuationToken = Some (replicate 100 CHR ''t''),
             NextContinuationToken = None\<rparr>"
    by (simp add: bucketProvider_def len Let_def)
  have page1: "ListObjects (bucketProvider bucket101) ''bucket'' '''' [] =
      Some (Ok (map (objectSpec ''bucket'') (take 100 bucket101)))"
    using listObjects_first_page_only[where cli = "bucketProvider bucket101" and bucket = "''bucket''"
        and prefix = "''''" and startAfter = "[]", OF first]
    by simp
  have page2: "listObjectsLoop (bucketProvider bucket101) ''bucket'' '''' []
      (Some (replicate 100 CHR ''t'')) [] = Some (Ok (map (objectSpec ''bucket'') (drop 100 bucket101)))"
    using listObjects_last_page[where cli = "bucketProvider bucket101" and bucket = "''bucket''"
        and prefix = "''''" and startAfter = "[]" and specs = "[]", OF second]
    by simp
  from len page1 page2 show ?thesis by simp
qed

end
